theory Spec2Isabelle
  imports Complex_Main "HOL-Library.Sublist" "HOL-Library.AList"
begin

section \<open>EasyWorship schedule updater: the search / substitute / diff engine\<close>

text \<open>
  A shallow embedding of class \<^verbatim>\<open>EWDatabaseRewriter\<close> of \<^verbatim>\<open>scheduleConverter.py\<close>.

  Conventions.
  \<^item> A Python \<^verbatim>\<open>str\<close> is a \<^typ>\<open>string\<close>; a \<^typ>\<open>char\<close> stands for one code point
    below 256 (Latin-1), so \<^const>\<open>length\<close> counts code points as \<^verbatim>\<open>len\<close> does. On
    these code points \<^verbatim>\<open>str.lower\<close> maps one character to one character; code points
    whose lower-casing changes the length of a string are outside the model.
  \<^item> Python integers (indices, offsets) are \<^typ>\<open>int\<close>.
  \<^item> An exception is a value of type \<open>error\<close>; a loop that may run forever is a
    \<^theory_text>\<open>partial_function\<close> in the option monad, where \<^const>\<open>None\<close> is
    "does not return".
\<close>

subsection \<open>Python string primitives\<close>

text \<open>\<^verbatim>\<open>str.lower\<close> on code points below 256: the upper-case letters are
  \<^verbatim>\<open>A-Z\<close> (65..90) and the Latin-1 capitals 192..214 and 216..222; each is 32 below
  its lower-case form.\<close>

definition is_upper :: "char \<Rightarrow> bool" where
  "is_upper c = (let n = (of_char c :: nat) in
     (65 \<le> n \<and> n \<le> 90) \<or> (192 \<le> n \<and> n \<le> 214) \<or> (216 \<le> n \<and> n \<le> 222))"

definition lower_char :: "char \<Rightarrow> char" where
  "lower_char c = (if is_upper c then char_of ((of_char c :: nat) + 32) else c)"

definition lower :: "string \<Rightarrow> string" where
  "lower s = map lower_char s"

text \<open>\<^verbatim>\<open>sub in s\<close>: some suffix of \<open>s\<close> starts with \<open>sub\<close>.\<close>

fun str_in :: "string \<Rightarrow> string \<Rightarrow> bool" where
  "str_in sub [] = (sub = [])"
| "str_in sub (c # cs) = (prefix sub (c # cs) \<or> str_in sub cs)"

text \<open>\<^verbatim>\<open>s.find(sub, start)\<close>: the lowest index \<open>\<ge> start\<close> at which \<open>sub\<close> occurs, or
  \<open>-1\<close>. A negative \<open>start\<close> counts from the end; a \<open>start\<close> beyond \<open>len(s)\<close> finds
  nothing, not even the empty string.\<close>

fun find_aux :: "string \<Rightarrow> string \<Rightarrow> nat \<Rightarrow> int" where
  "find_aux sub [] i = (if sub = [] then int i else - 1)"
| "find_aux sub (c # cs) i = (if prefix sub (c # cs) then int i else find_aux sub cs (Suc i))"

definition str_find :: "string \<Rightarrow> string \<Rightarrow> int \<Rightarrow> int" where
  "str_find s sub start =
     (let n = int (length s);
          b = (if start < 0 then max 0 (start + n) else start)
      in if n < b then - 1 else find_aux sub (drop (nat b) s) (nat b))"

text \<open>\<^verbatim>\<open>s.replace(old, new)\<close>: every non-overlapping occurrence of \<open>old\<close>, found left to
  right, is replaced; after an occurrence the scan resumes behind it (its first character
  is consumed by the pattern match, the other \<open>len(old) - 1\<close> by \<^const>\<open>drop\<close>). With
  the empty \<open>old\<close>, \<open>new\<close> is inserted before every character and at the end.\<close>

fun replace_scan :: "string \<Rightarrow> string \<Rightarrow> string \<Rightarrow> string" where
  "replace_scan old new [] = []"
| "replace_scan old new (c # cs) =
     (if prefix old (c # cs) then new @ replace_scan old new (drop (length old - 1) cs)
      else c # replace_scan old new cs)"

definition str_replace :: "string \<Rightarrow> string \<Rightarrow> string \<Rightarrow> string" where
  "str_replace s old new =
     (if old = [] then new @ concat (map (\<lambda>c. c # new) s) else replace_scan old new s)"

text \<open>Slices \<^verbatim>\<open>s[a:b]\<close> and \<^verbatim>\<open>s[a:]\<close>: a negative index counts from the end, and both
  ends are clamped to \<open>0..len(s)\<close>; a slice never raises.\<close>

definition norm_index :: "int \<Rightarrow> nat \<Rightarrow> nat" where
  "norm_index i n = (if i < 0 then nat (max 0 (i + int n)) else min (nat i) n)"

definition slice :: "'a list \<Rightarrow> int \<Rightarrow> int \<Rightarrow> 'a list" where
  "slice s a b =
     (let lo = norm_index a (length s); hi = norm_index b (length s)
      in take (hi - lo) (drop lo s))"

definition slice_from :: "'a list \<Rightarrow> int \<Rightarrow> 'a list" where
  "slice_from s a = drop (norm_index a (length s)) s"

subsection \<open>Cell values and exceptions\<close>

text \<open>The values the \<^verbatim>\<open>sqlite3\<close> module hands out for a cell: \<^verbatim>\<open>None\<close>, \<^verbatim>\<open>int\<close>,
  \<^verbatim>\<open>float\<close>, \<^verbatim>\<open>str\<close> and \<^verbatim>\<open>bytes\<close>.\<close>

datatype cell = Null | IntCell int | RealCell real | Str string | Blob "nat list"

datatype error =
  TypeError | AttributeError | IndexError | OperationalError | IntegrityError
  | ZeroDivisionError | ReError

subsection \<open>The plain-mode matcher and substituter\<close>

text \<open>\<^verbatim>\<open>searchValuePlain\<close> (lines 242-252). The only field of \<open>self\<close> it reads is
  \<open>ignorecase\<close>, passed as the first argument. The haystack is whatever the cell holds:
  on \<^verbatim>\<open>bytes\<close> both branches end in \<^verbatim>\<open>str in bytes\<close>, a \<^verbatim>\<open>TypeError\<close>; on \<^verbatim>\<open>None\<close>,
  \<^verbatim>\<open>int\<close> and \<^verbatim>\<open>float\<close> the call \<^verbatim>\<open>value.lower()\<close> is an \<^verbatim>\<open>AttributeError\<close> and
  \<^verbatim>\<open>searchstring in value\<close> a \<^verbatim>\<open>TypeError\<close>.\<close>

fun searchValuePlain :: "bool \<Rightarrow> string \<Rightarrow> cell \<Rightarrow> error + bool" where
  "searchValuePlain ignorecase searchstring (Str v) =
     (if ignorecase then Inr (str_in (lower searchstring) (lower v))
      else Inr (str_in searchstring v))"
| "searchValuePlain ignorecase searchstring (Blob b) = Inl TypeError"
| "searchValuePlain ignorecase searchstring other =
     (if ignorecase then Inl AttributeError else Inl TypeError)"

text \<open>The \<^verbatim>\<open>while\<close> loop of \<^verbatim>\<open>substituteValuePlain\<close> (lines 278-286), with its variables
  \<open>newstr\<close> and \<open>lastIndex\<close> as arguments.\<close>

partial_function (option) subst_loop ::
  "string \<Rightarrow> string \<Rightarrow> string \<Rightarrow> string \<Rightarrow> int \<Rightarrow> string option" where
  "subst_loop searchstring replacement val newstr lastIndex =
     (if lastIndex < int (length val) then
        (let index = str_find (lower val) (lower searchstring) lastIndex in
         if index < 0 then
           subst_loop searchstring replacement val
             (newstr @ slice_from val lastIndex) (int (length val))
         else
           subst_loop searchstring replacement val
             (newstr @ slice val lastIndex index @ replacement)
             (index + int (length searchstring)))
      else Some newstr)"

text \<open>\<^verbatim>\<open>substituteValuePlain\<close> (lines 263-287): with \<open>ignorecase\<close> set it returns
  \<^verbatim>\<open>value.replace(searchstring, replacement)\<close>, otherwise it runs the loop over the
  lower-cased strings.\<close>

definition substituteValuePlain :: "bool \<Rightarrow> string \<Rightarrow> string \<Rightarrow> string \<Rightarrow> string option" where
  "substituteValuePlain ignorecase searchstring replacement val =
     (if ignorecase then Some (str_replace val searchstring replacement)
      else subst_loop searchstring replacement val [] 0)"

subsection \<open>The plain-mode diff renderer\<close>

text \<open>The two lines \<^verbatim>\<open>original\<close> and \<^verbatim>\<open>new\<close> are strings to which the renderer appends
  pieces, some of them wrapped by \<^verbatim>\<open>bcolors.fail\<close> (red) or \<^verbatim>\<open>bcolors.okgreen\<close> (green).
  A line is kept as the list of the pieces appended, each with its colour; the colour
  escape sequences themselves are not modelled. Both lines start with a coloured sign,
  \<^verbatim>\<open>'- '\<close> or \<^verbatim>\<open>'+ '\<close>; \<open>reconstruct\<close> is the text of a line behind that sign.\<close>

datatype span = Unmarked string | Red string | Green string

fun span_text :: "span \<Rightarrow> string" where
  "span_text (Unmarked s) = s"
| "span_text (Red s) = s"
| "span_text (Green s) = s"

definition reconstruct :: "span list \<Rightarrow> string" where
  "reconstruct line = concat (map span_text (tl line))"

text \<open>The \<^verbatim>\<open>while\<close> loop of \<^verbatim>\<open>printDifferencePlain\<close> (lines 317-337). \<open>printed\<close> collects
  the pairs written by \<^verbatim>\<open>print(index, lastIndex)\<close>. The two statements of lines 336-337,
  which append the rest of both strings, are inside the loop body, and line 334 subtracts
  \<open>stdDiscrepency = len(replace) - len(search)\<close>.\<close>

partial_function (option) diff_loop ::
  "bool \<Rightarrow> string \<Rightarrow> string \<Rightarrow> string \<Rightarrow> string \<Rightarrow>
     (int \<times> int) list \<Rightarrow> span list \<Rightarrow> span list \<Rightarrow> int \<Rightarrow> int \<Rightarrow>
     ((int \<times> int) list \<times> span list \<times> span list) option" where
  "diff_loop ignorecase search replace val newValue printed original new lastIndex discrepency =
     (if lastIndex < int (length val) then
        (let index = (if ignorecase then str_find (lower val) (lower search) lastIndex
                      else str_find val search lastIndex);
             printed1 = printed @ [(index, lastIndex)]
         in if index < 0 then
              (let lastIndex1 = int (length val)
               in diff_loop ignorecase search replace val newValue printed1
                    (original @ [Unmarked (slice_from val lastIndex1)])
                    (new @ [Unmarked (slice_from newValue (lastIndex1 + discrepency))])
                    lastIndex1 discrepency)
            else
              (let original1 = original @ [Unmarked (slice val lastIndex index),
                                 Red (slice val index (index + int (length search)))];
                   new1 = new @ [Unmarked (slice newValue (lastIndex + discrepency)
                                   (index + discrepency)), Green replace];
                   lastIndex1 = index + int (length search);
                   discrepency1 = discrepency - (int (length replace) - int (length search))
               in diff_loop ignorecase search replace val newValue printed1
                    (original1 @ [Unmarked (slice_from val lastIndex1)])
                    (new1 @ [Unmarked (slice_from newValue (lastIndex1 + discrepency1))])
                    lastIndex1 discrepency1))
      else Some (printed, original, new))"

text \<open>\<^verbatim>\<open>printDifferencePlain\<close> (lines 301-341): the pairs printed by the loop and the two
  lines printed after it.\<close>

definition printDifferencePlain ::
  "bool \<Rightarrow> string \<Rightarrow> string \<Rightarrow> string \<Rightarrow> string \<Rightarrow>
     ((int \<times> int) list \<times> span list \<times> span list) option" where
  "printDifferencePlain ignorecase search replace val newValue =
     diff_loop ignorecase search replace val newValue [] [Red ''- ''] [Green ''+ ''] 0 0"

subsection \<open>The regular-expression library\<close>

text \<open>Python's \<^verbatim>\<open>re\<close> module is not part of the repository; the engine is parametrised
  by it. \<open>'rx\<close> is the type of compiled patterns.
  \<^item> \<open>re_compile s ic\<close> is \<^verbatim>\<open>re.compile(s)\<close>, with \<^verbatim>\<open>re.IGNORECASE\<close> when \<open>ic\<close>;
    \<^const>\<open>None\<close> stands for \<^verbatim>\<open>re.error\<close> on a malformed pattern.
  \<^item> \<open>re_search rx s\<close> tells whether \<^verbatim>\<open>rx.search(s)\<close> returns a match object.
  \<^item> \<^verbatim>\<open>re.sub(rx, repl, s)\<close> parses the template \<open>repl\<close> before it looks at \<open>s\<close> and
    raises \<^verbatim>\<open>re.error\<close> when the template is invalid (\<open>re_template_ok\<close>); otherwise it
    returns the substituted string (\<open>re_expand\<close>).
  \<^item> \<open>re_finditer rx s\<close> is the list of the spans \<^verbatim>\<open>(m.start(), m.end())\<close> of the matches
    that \<^verbatim>\<open>rx.finditer(s)\<close> yields.\<close>

record 'rx re_module =
  re_compile :: "string \<Rightarrow> bool \<Rightarrow> 'rx option"
  re_search :: "'rx \<Rightarrow> string \<Rightarrow> bool"
  re_template_ok :: "'rx \<Rightarrow> string \<Rightarrow> bool"
  re_expand :: "'rx \<Rightarrow> string \<Rightarrow> string \<Rightarrow> string"
  re_finditer :: "'rx \<Rightarrow> string \<Rightarrow> (int \<times> int) list"

definition re_sub :: "'rx re_module \<Rightarrow> 'rx \<Rightarrow> string \<Rightarrow> string \<Rightarrow> error + string" where
  "re_sub re rx repl s =
     (if re_template_ok re rx repl then Inr (re_expand re rx repl s) else Inl ReError)"

text \<open>\<^verbatim>\<open>searchValueRegex\<close> (lines 254-261) returns the match object or \<^verbatim>\<open>None\<close>, used
  for its truth value; on a value that is not a \<^verbatim>\<open>str\<close>, \<^verbatim>\<open>search\<close> raises
  \<^verbatim>\<open>TypeError\<close>. \<^verbatim>\<open>substituteValueRegex\<close> is lines 289-299.\<close>

fun searchValueRegex :: "'rx re_module \<Rightarrow> 'rx \<Rightarrow> cell \<Rightarrow> error + bool" where
  "searchValueRegex re searchstring (Str v) = Inr (re_search re searchstring v)"
| "searchValueRegex re searchstring other = Inl TypeError"

definition substituteValueRegex ::
  "'rx re_module \<Rightarrow> 'rx \<Rightarrow> string \<Rightarrow> string \<Rightarrow> error + string" where
  "substituteValueRegex re searchstring replacement val = re_sub re searchstring replacement val"

text \<open>\<^verbatim>\<open>printDifferenceRegex\<close> (lines 343-374): the \<^verbatim>\<open>for\<close> loop over the matches, then
  the rest of both strings.\<close>

fun diff_regex_loop ::
  "'rx re_module \<Rightarrow> 'rx \<Rightarrow> string \<Rightarrow> string \<Rightarrow> string \<Rightarrow> (int \<times> int) list \<Rightarrow>
     span list \<Rightarrow> span list \<Rightarrow> int \<Rightarrow> int \<Rightarrow> error + (span list \<times> span list \<times> int \<times> int)" where
  "diff_regex_loop re search replace val newValue [] original new lastIndex discrepency =
     Inr (original, new, lastIndex, discrepency)"
| "diff_regex_loop re search replace val newValue (m # matches) original new lastIndex discrepency =
     (case re_sub re search replace (slice val (fst m) (snd m)) of
        Inl e \<Rightarrow> Inl e
      | Inr isolated \<Rightarrow>
          (let sublen = int (length isolated);
               original1 = original @ [Unmarked (slice val lastIndex (fst m)),
                             Red (slice val (fst m) (snd m))];
               new1 = new @ [Unmarked (slice newValue (lastIndex + discrepency)
                               (fst m + discrepency)),
                        Green (slice newValue (fst m + discrepency)
                               (fst m + discrepency + sublen))]
           in diff_regex_loop re search replace val newValue matches original1 new1
                (snd m) (discrepency + (sublen - (snd m - fst m)))))"

definition printDifferenceRegex ::
  "'rx re_module \<Rightarrow> 'rx \<Rightarrow> string \<Rightarrow> string \<Rightarrow> string \<Rightarrow> error + (span list \<times> span list)" where
  "printDifferenceRegex re search replace val newValue =
     (case diff_regex_loop re search replace val newValue (re_finditer re search val)
             [Red ''- ''] [Green ''+ ''] 0 0 of
        Inl e \<Rightarrow> Inl e
      | Inr (original, new, lastIndex, discrepency) \<Rightarrow>
          Inr (original @ [Unmarked (slice_from val lastIndex)],
               new @ [Unmarked (slice_from newValue (lastIndex + discrepency))]))"

text \<open>What \<^verbatim>\<open>finditer\<close> guarantees about the spans it yields: they come left to right and
  do not overlap, each starting at or after the end of the one before (\<open>lastIndex\<close>).\<close>

fun spans_ok :: "int \<Rightarrow> (int \<times> int) list \<Rightarrow> bool" where
  "spans_ok lastIndex [] = True"
| "spans_ok lastIndex (m # ms) = (lastIndex \<le> fst m \<and> fst m \<le> snd m \<and> spans_ok (snd m) ms)"

subsection \<open>The rewriter object and its bound methods\<close>

text \<open>\<^verbatim>\<open>self.input\<close> is the search string itself in plain mode and the compiled pattern
  in regex mode. \<^verbatim>\<open>__init__\<close> binds \<^verbatim>\<open>searchValue\<close>, \<^verbatim>\<open>substituteValue\<close> and
  \<^verbatim>\<open>printDifference\<close> to the plain or the regex methods together with it (lines
  123-135), so the three bound methods dispatch on the kind of pattern they are given.\<close>

datatype 'rx pattern = Plain string | Regex 'rx

record 'rx rewriter =
  dryRun :: bool
  replacewith :: string
  ignorecase :: bool
  input :: "'rx pattern"

text \<open>What is written to standard output, one item per \<^verbatim>\<open>print\<close> or \<^verbatim>\<open>write\<close>; the
  wording of the report lines is not modelled, their data is.\<close>

datatype printout =
    Line string
  | Found nat nat
  | TableLine string "string list"
  | IndexPair int int
  | Marked "span list"
  | Progress nat nat
  | Summary nat nat bool

fun searchValue :: "'rx re_module \<Rightarrow> 'rx rewriter \<Rightarrow> 'rx pattern \<Rightarrow> cell \<Rightarrow> error + bool" where
  "searchValue re self (Plain searchstring) v = searchValuePlain (ignorecase self) searchstring v"
| "searchValue re self (Regex searchstring) v = searchValueRegex re searchstring v"

text \<open>\<^verbatim>\<open>substituteValue\<close> and \<^verbatim>\<open>printDifference\<close> are called on a value only after
  \<^verbatim>\<open>searchValue\<close> has returned on it, hence on a \<^verbatim>\<open>str\<close> (lemma \<open>searchValue_Inr_Str\<close>);
  their last equations, for other values, are never reached by the rewrite pass.\<close>

fun substituteValue ::
  "'rx re_module \<Rightarrow> 'rx rewriter \<Rightarrow> 'rx pattern \<Rightarrow> string \<Rightarrow> cell \<Rightarrow> (error + string) option" where
  "substituteValue re self (Plain searchstring) replacement (Str v) =
     map_option Inr (substituteValuePlain (ignorecase self) searchstring replacement v)"
| "substituteValue re self (Regex searchstring) replacement (Str v) =
     Some (substituteValueRegex re searchstring replacement v)"
| "substituteValue re self search replacement other = Some (Inl TypeError)"

fun printDifference ::
  "'rx re_module \<Rightarrow> 'rx rewriter \<Rightarrow> 'rx pattern \<Rightarrow> string \<Rightarrow> cell \<Rightarrow> string \<Rightarrow>
     (error + printout list) option" where
  "printDifference re self (Plain search) replace (Str v) newValue =
     map_option (\<lambda>(printed, original, new).
         Inr (map (\<lambda>(index, lastIndex). IndexPair index lastIndex) printed
              @ [Marked original, Marked new, Line [CHR 0x0A]]))
       (printDifferencePlain (ignorecase self) search replace v newValue)"
| "printDifference re self (Regex search) replace (Str v) newValue =
     Some (case printDifferenceRegex re search replace v newValue of
             Inl e \<Rightarrow> Inl e
           | Inr (original, new) \<Rightarrow> Inr [Marked original, Marked new, Line [CHR 0x0A]])"
| "printDifference re self search replace other newValue = Some (Inl TypeError)"

subsection \<open>The database\<close>

text \<open>The SQLite database behind the connection: tables with their column names and
  rows; a row is its \<^verbatim>\<open>rowid\<close> and its cells in column order, one per column (see
  \<open>wf_db\<close> below), and the rows of a table stand in the order in which a \<^verbatim>\<open>select\<close>
  delivers them. \<open>db\<close> is the database as the connection sees it, \<open>disk\<close> the committed
  one; \<open>executed\<close> and \<open>printed\<close> record the statements run and the output written.
  \<open>matched\<close> is a history variable: the cells (table, column, rowid) at which the test
  of line 216 succeeded, of which the source keeps only the number, in
  \<^verbatim>\<open>replaced_count\<close>.\<close>

type_synonym row = "int \<times> cell list"

record table =
  tname :: string
  columns :: "string list"
  rows :: "row list"

type_synonym database = "table list"

datatype statement =
    SelectTables
  | SelectAll string
  | SelectColumn string string
  | Update string string string int
  | Commit

record state =
  db :: database
  disk :: database
  executed :: "statement list"
  printed :: "printout list"
  matched :: "(string \<times> string \<times> int) list"

definition find_table :: "database \<Rightarrow> string \<Rightarrow> table option" where
  "find_table d t = find (\<lambda>tb. tname tb = t) d"

fun column_index :: "string list \<Rightarrow> string \<Rightarrow> nat option" where
  "column_index [] col = None"
| "column_index (c # cs) col = (if c = col then Some 0 else map_option Suc (column_index cs col))"

text \<open>What the program leaves to SQLite is a parameter, as the regular-expression
  library is. The two \<^verbatim>\<open>select\<close> statements (lines 172 and 212) paste the table and
  column names into the SQL text as they are: \<open>sql_bare n\<close> says that SQLite reads the
  unquoted text \<open>n\<close> as the name \<open>n\<close> itself. Any other text (a keyword such as
  \<^verbatim>\<open>order\<close>, a name with a space or a quote in it) is taken to be refused with an
  \<^verbatim>\<open>OperationalError\<close>; where SQLite reads such a text as something else (\<^verbatim>\<open>my songs\<close>
  as the table \<^verbatim>\<open>my\<close> under an alias), the model does not follow it. The \<^verbatim>\<open>update\<close>
  (line 221) wraps both names in backticks and so takes every name as it is; the value
  is bound as a parameter. \<open>sql_stored t col v\<close> is the cell the column keeps when the
  text \<open>v\<close> is written to it (the column's type affinity may convert it), and
  \<open>sql_integrity\<close> holds of a database that meets the declared constraints
  (\<^verbatim>\<open>UNIQUE\<close>, \<^verbatim>\<open>CHECK\<close>, \<^verbatim>\<open>NOT NULL\<close>): an update that would break them is refused
  with an \<^verbatim>\<open>IntegrityError\<close> and leaves the database as it was.\<close>

record sqlite_module =
  sql_bare :: "string \<Rightarrow> bool"
  sql_stored :: "string \<Rightarrow> string \<Rightarrow> string \<Rightarrow> cell"
  sql_integrity :: "database \<Rightarrow> bool"

text \<open>\<open>read_table\<close> and \<open>read_column\<close> are the lookups by name: a table or column that
  does not exist is an \<^verbatim>\<open>OperationalError\<close>. \<open>select_all\<close> is the statement of line 172,
  \<open>select_column\<close> that of line 212, \<open>update_cell\<close> that of lines 221-222. A \<^verbatim>\<open>select\<close>
  is taken to deliver the rows as they are when it is executed. In a dry run nothing is
  written while its rows are fetched. In a real run the rows are fetched one by one while
  the same column is updated (the cursor \<^verbatim>\<open>c2\<close>); each update changes only the row just
  delivered, so the rows met are those of the snapshot when SQLite walks the table
  itself. A \<^verbatim>\<open>select\<close> that SQLite serves from an index on the column being rewritten can
  meet a rewritten row a second time; the model does not follow that.\<close>

definition read_table :: "database \<Rightarrow> string \<Rightarrow> error + (string list \<times> cell list list)" where
  "read_table d t =
     (case find_table d t of
        None \<Rightarrow> Inl OperationalError
      | Some tb \<Rightarrow> Inr (columns tb, map snd (rows tb)))"

definition read_column :: "database \<Rightarrow> string \<Rightarrow> string \<Rightarrow> error + (int \<times> cell) list" where
  "read_column d t col =
     (case find_table d t of
        None \<Rightarrow> Inl OperationalError
      | Some tb \<Rightarrow>
          (case column_index (columns tb) col of
             None \<Rightarrow> Inl OperationalError
           | Some i \<Rightarrow> Inr (map (\<lambda>r. (fst r, snd r ! i)) (rows tb))))"

definition select_all ::
  "sqlite_module \<Rightarrow> database \<Rightarrow> string \<Rightarrow> error + (string list \<times> cell list list)" where
  "select_all sq d t = (if sql_bare sq t then read_table d t else Inl OperationalError)"

definition select_column ::
  "sqlite_module \<Rightarrow> database \<Rightarrow> string \<Rightarrow> string \<Rightarrow> error + (int \<times> cell) list" where
  "select_column sq d t col =
     (if sql_bare sq col \<and> sql_bare sq t then read_column d t col else Inl OperationalError)"

definition update_rows :: "nat \<Rightarrow> cell \<Rightarrow> int \<Rightarrow> row list \<Rightarrow> row list" where
  "update_rows i v rowid rs = map (\<lambda>r. if fst r = rowid then (fst r, (snd r)[i := v]) else r) rs"

definition write_cell :: "database \<Rightarrow> string \<Rightarrow> string \<Rightarrow> cell \<Rightarrow> int \<Rightarrow> error + database" where
  "write_cell d t col v rowid =
     (case find_table d t of
        None \<Rightarrow> Inl OperationalError
      | Some tb \<Rightarrow>
          (case column_index (columns tb) col of
             None \<Rightarrow> Inl OperationalError
           | Some i \<Rightarrow>
               Inr (map (\<lambda>tb'. if tname tb' = t
                                then tb'\<lparr>rows := update_rows i v rowid (rows tb')\<rparr>
                                else tb') d)))"

definition update_cell ::
  "sqlite_module \<Rightarrow> database \<Rightarrow> string \<Rightarrow> string \<Rightarrow> string \<Rightarrow> int \<Rightarrow> error + database" where
  "update_cell sq d t col v rowid =
     (case write_cell d t col (sql_stored sq t col v) rowid of
        Inl e \<Rightarrow> Inl e
      | Inr d' \<Rightarrow> if sql_integrity sq d' then Inr d' else Inl IntegrityError)"

definition execute :: "statement \<Rightarrow> state \<Rightarrow> state" where
  "execute q st = st\<lparr>executed := executed st @ [q]\<rparr>"

definition py_print :: "printout list \<Rightarrow> state \<Rightarrow> state" where
  "py_print out st = st\<lparr>printed := printed st @ out\<rparr>"

definition getTables :: "state \<Rightarrow> string list \<times> state" where
  "getTables st = (map tname (db st), execute SelectTables st)"

subsection \<open>The scan pass\<close>

text \<open>\<^verbatim>\<open>getTablesWhereStringExists\<close> (lines 162-190). The dictionary
  \<^verbatim>\<open>tables_with_string\<close> is an association list in insertion order; \<open>record_column\<close>
  is the \<^verbatim>\<open>try\<close> / \<^verbatim>\<open>except\<close> of lines 178-182. \<^verbatim>\<open>total_occurences\<close>, a float that only
  counts, is a natural number.\<close>

type_synonym report = "(string \<times> string list) list"

definition record_column :: "string \<Rightarrow> string \<Rightarrow> report \<Rightarrow> report" where
  "record_column t name tables_with_string =
     (case map_of tables_with_string t of
        None \<Rightarrow> AList.update t [name] tables_with_string
      | Some cols \<Rightarrow>
          if name \<in> set cols then tables_with_string
          else AList.update t (cols @ [name]) tables_with_string)"

fun scan_cells ::
  "'rx re_module \<Rightarrow> 'rx rewriter \<Rightarrow> 'rx pattern \<Rightarrow> string \<Rightarrow> string list \<Rightarrow> nat \<Rightarrow> cell list \<Rightarrow>
     report \<times> nat \<Rightarrow> error + (report \<times> nat)" where
  "scan_cells re self search t names i [] acc = Inr acc"
| "scan_cells re self search t names i (c # cells) (tables_with_string, total_occurences) =
     (case c of
        Str v \<Rightarrow>
          (case searchValue re self search c of
             Inl e \<Rightarrow> Inl e
           | Inr hit \<Rightarrow>
               if hit then
                 (if i < length names then
                    scan_cells re self search t names (Suc i) cells
                      (record_column t (names ! i) tables_with_string, total_occurences + 1)
                  else Inl IndexError)
               else scan_cells re self search t names (Suc i) cells
                      (tables_with_string, total_occurences))
      | _ \<Rightarrow> scan_cells re self search t names (Suc i) cells
               (tables_with_string, total_occurences))"

fun scan_rows ::
  "'rx re_module \<Rightarrow> 'rx rewriter \<Rightarrow> 'rx pattern \<Rightarrow> string \<Rightarrow> string list \<Rightarrow> cell list list \<Rightarrow>
     report \<times> nat \<Rightarrow> error + (report \<times> nat)" where
  "scan_rows re self search t names [] acc = Inr acc"
| "scan_rows re self search t names (r # res) acc =
     (case scan_cells re self search t names 0 r acc of
        Inl e \<Rightarrow> Inl e
      | Inr acc1 \<Rightarrow> scan_rows re self search t names res acc1)"

fun scan_tables ::
  "'rx re_module \<Rightarrow> sqlite_module \<Rightarrow> 'rx rewriter \<Rightarrow> 'rx pattern \<Rightarrow> string list \<Rightarrow> report \<times> nat \<Rightarrow> state \<Rightarrow>
     (error + (report \<times> nat)) \<times> state" where
  "scan_tables re sq self search [] acc st = (Inr acc, st)"
| "scan_tables re sq self search (t # tables) acc st =
     (let st1 = execute (SelectAll t) st in
      case select_all sq (db st1) t of
        Inl e \<Rightarrow> (Inl e, st1)
      | Inr (names, res) \<Rightarrow>
          (case scan_rows re self search t names res acc of
             Inl e \<Rightarrow> (Inl e, st1)
           | Inr acc1 \<Rightarrow> scan_tables re sq self search tables acc1 st1))"

definition getTablesWhereStringExists ::
  "'rx re_module \<Rightarrow> sqlite_module \<Rightarrow> 'rx rewriter \<Rightarrow> string list \<Rightarrow> 'rx pattern \<Rightarrow> state \<Rightarrow>
     (error + (report \<times> nat)) \<times> state" where
  "getTablesWhereStringExists re sq self tables search st =
     (case scan_tables re sq self search tables ([], 0) st of
        (Inl e, st1) \<Rightarrow> (Inl e, st1)
      | (Inr (tables_with_string, total_occurences), st1) \<Rightarrow>
          (Inr (tables_with_string, total_occurences),
           py_print (Found total_occurences (length tables_with_string)
                  # map (\<lambda>(t, cols). TableLine t cols) tables_with_string) st1))"

subsection \<open>The rewrite pass\<close>

text \<open>\<^verbatim>\<open>startReplacement\<close> (lines 192-240): \<open>process_row\<close> is the body of the loop over
  the fetched rows (lines 215-226), \<open>cols_loop\<close> and \<open>tables_loop\<close> the two outer loops.
  The progress line divides by \<^verbatim>\<open>expectedTotal\<close>, a \<^verbatim>\<open>ZeroDivisionError\<close> when that is
  zero.\<close>

definition process_row ::
  "'rx re_module \<Rightarrow> sqlite_module \<Rightarrow> 'rx rewriter \<Rightarrow> string \<Rightarrow> string \<Rightarrow> 'rx pattern \<Rightarrow> string \<Rightarrow> nat \<Rightarrow>
     int \<times> cell \<Rightarrow> state \<times> nat \<Rightarrow> (error option \<times> state \<times> nat) option" where
  "process_row re sq self t col search replace expectedTotal r acc =
     (let st = fst acc; replaced_count = snd acc in
      case searchValue re self search (snd r) of
        Inl e \<Rightarrow> Some (Some e, st, replaced_count)
      | Inr hit \<Rightarrow>
          if \<not> hit then Some (None, st, replaced_count)
          else
            (let st0 = st\<lparr>matched := matched st @ [(t, col, fst r)]\<rparr> in
             case substituteValue re self search replace (snd r) of
               None \<Rightarrow> None
             | Some (Inl e) \<Rightarrow> Some (Some e, st0, replaced_count)
             | Some (Inr replaced_col) \<Rightarrow>
                 if dryRun self then
                   (case printDifference re self search replace (snd r) replaced_col of
                      None \<Rightarrow> None
                    | Some (Inl e) \<Rightarrow> Some (Some e, st0, replaced_count)
                    | Some (Inr out) \<Rightarrow> Some (None, py_print out st0, replaced_count + 1))
                 else
                   (let st1 = execute (Update t col replaced_col (fst r)) st0 in
                    case update_cell sq (db st1) t col replaced_col (fst r) of
                      Inl e \<Rightarrow> Some (Some e, st1, replaced_count)
                    | Inr d \<Rightarrow>
                        (let st2 = st1\<lparr>db := d\<rparr> in
                         if replaced_count mod 20 = 0 then
                           (if expectedTotal = 0 then Some (Some ZeroDivisionError, st2, replaced_count)
                            else Some (None, py_print [Progress replaced_count expectedTotal] st2,
                                       replaced_count + 1))
                         else Some (None, st2, replaced_count + 1)))))"

fun rows_loop ::
  "'rx re_module \<Rightarrow> sqlite_module \<Rightarrow> 'rx rewriter \<Rightarrow> string \<Rightarrow> string \<Rightarrow> 'rx pattern \<Rightarrow> string \<Rightarrow> nat \<Rightarrow>
     (int \<times> cell) list \<Rightarrow> state \<times> nat \<Rightarrow> (error option \<times> state \<times> nat) option" where
  "rows_loop re sq self t col search replace expectedTotal [] acc = Some (None, acc)"
| "rows_loop re sq self t col search replace expectedTotal (r # result) acc =
     (case process_row re sq self t col search replace expectedTotal r acc of
        None \<Rightarrow> None
      | Some (Some e, acc1) \<Rightarrow> Some (Some e, acc1)
      | Some (None, acc1) \<Rightarrow> rows_loop re sq self t col search replace expectedTotal result acc1)"

definition commit :: "state \<Rightarrow> state" where
  "commit st = (execute Commit st)\<lparr>disk := db st\<rparr>"

fun cols_loop ::
  "'rx re_module \<Rightarrow> sqlite_module \<Rightarrow> 'rx rewriter \<Rightarrow> string \<Rightarrow> 'rx pattern \<Rightarrow> string \<Rightarrow> nat \<Rightarrow>
     string list \<Rightarrow> state \<times> nat \<Rightarrow> (error option \<times> state \<times> nat) option" where
  "cols_loop re sq self t search replace expectedTotal [] acc = Some (None, acc)"
| "cols_loop re sq self t search replace expectedTotal (col # cols) (st, replaced_count) =
     (let st1 = execute (SelectColumn t col) st in
      case select_column sq (db st1) t col of
        Inl e \<Rightarrow> Some (Some e, st1, replaced_count)
      | Inr result \<Rightarrow>
          (case rows_loop re sq self t col search replace expectedTotal result (st1, replaced_count) of
             None \<Rightarrow> None
           | Some (Some e, acc1) \<Rightarrow> Some (Some e, acc1)
           | Some (None, st2, replaced_count2) \<Rightarrow>
               cols_loop re sq self t search replace expectedTotal cols
                 (if dryRun self then st2 else commit st2, replaced_count2)))"

fun tables_loop ::
  "'rx re_module \<Rightarrow> sqlite_module \<Rightarrow> 'rx rewriter \<Rightarrow> 'rx pattern \<Rightarrow> string \<Rightarrow> nat \<Rightarrow>
     report \<Rightarrow> state \<times> nat \<Rightarrow> (error option \<times> state \<times> nat) option" where
  "tables_loop re sq self search replace expectedTotal [] acc = Some (None, acc)"
| "tables_loop re sq self search replace expectedTotal (entry # tables) acc =
     (case cols_loop re sq self (fst entry) search replace expectedTotal (snd entry) acc of
        None \<Rightarrow> None
      | Some (Some e, acc1) \<Rightarrow> Some (Some e, acc1)
      | Some (None, acc1) \<Rightarrow> tables_loop re sq self search replace expectedTotal tables acc1)"

definition startReplacement ::
  "'rx re_module \<Rightarrow> sqlite_module \<Rightarrow> 'rx rewriter \<Rightarrow> report \<Rightarrow> 'rx pattern \<Rightarrow> string \<Rightarrow> nat \<Rightarrow> state \<Rightarrow>
     (error option \<times> state) option" where
  "startReplacement re sq self tables search replace expectedTotal st =
     (let st0 = (if \<not> dryRun self then py_print [Line ''Starting replacing in database'', Line []] st
                 else st) in
      case tables_loop re sq self search replace expectedTotal tables (st0, 0) of
        None \<Rightarrow> None
      | Some (Some e, st1, replaced_count) \<Rightarrow> Some (Some e, st1)
      | Some (None, st1, replaced_count) \<Rightarrow>
          Some (None, py_print (Summary replaced_count (length tables) (dryRun self)
                             # map (\<lambda>(t, cols). TableLine t cols) tables) st1))"

text \<open>\<^verbatim>\<open>runReplacement\<close> (lines 139-152) and the constructor (lines 117-137), which
  compiles the pattern in regex mode and then runs the replacement. Opening and closing
  the connection and its cursors is not modelled: the state is that of an open
  connection.\<close>

definition runReplacement ::
  "'rx re_module \<Rightarrow> sqlite_module \<Rightarrow> 'rx rewriter \<Rightarrow> state \<Rightarrow> (error option \<times> state) option" where
  "runReplacement re sq self st =
     (let tables = fst (getTables st); st1 = snd (getTables st) in
      case getTablesWhereStringExists re sq self tables (input self) st1 of
        (Inl e, st2) \<Rightarrow> Some (Some e, st2)
      | (Inr (tables_with_string, found_occurences), st2) \<Rightarrow>
          if found_occurences > 0 then
            startReplacement re sq self tables_with_string (input self) (replacewith self)
              found_occurences st2
          else Some (None, py_print [Line ''Nothing to do here''] st2))"

definition EWDatabaseRewriter ::
  "'rx re_module \<Rightarrow> sqlite_module \<Rightarrow> string \<Rightarrow> string \<Rightarrow> bool \<Rightarrow> bool \<Rightarrow> bool \<Rightarrow> state \<Rightarrow>
     (error option \<times> state) option" where
  "EWDatabaseRewriter re sq search replace useregex dry ignoreCase st =
     (if useregex then
        (case re_compile re search ignoreCase of
           None \<Rightarrow> Some (Some ReError, st)
         | Some rx \<Rightarrow>
             runReplacement re sq
               \<lparr>dryRun = dry, replacewith = replace, ignorecase = ignoreCase, input = Regex rx\<rparr> st)
      else
        runReplacement re sq
          \<lparr>dryRun = dry, replacewith = replace, ignorecase = ignoreCase, input = Plain search\<rparr> st)"

subsection \<open>Notions used to state the properties\<close>

text \<open>A cell matches when it is a string on which the bound matcher answers true.
  \<open>matching_columns\<close> lists the names of the columns of one row whose cell matches,
  \<open>table_columns\<close> does so for all rows of a table.\<close>

definition cell_matches :: "'rx re_module \<Rightarrow> 'rx rewriter \<Rightarrow> 'rx pattern \<Rightarrow> cell \<Rightarrow> bool" where
  "cell_matches re self search c =
     (case c of Str v \<Rightarrow> searchValue re self search c = Inr True | _ \<Rightarrow> False)"

definition matching_columns ::
  "'rx re_module \<Rightarrow> 'rx rewriter \<Rightarrow> 'rx pattern \<Rightarrow> string list \<Rightarrow> cell list \<Rightarrow> string list" where
  "matching_columns re self search names r =
     map fst (filter (\<lambda>nc. cell_matches re self search (snd nc)) (zip names r))"

definition table_columns ::
  "'rx re_module \<Rightarrow> 'rx rewriter \<Rightarrow> 'rx pattern \<Rightarrow> table \<Rightarrow> string list" where
  "table_columns re self search tb =
     concat (map (\<lambda>r. matching_columns re self search (columns tb) (snd r)) (rows tb))"

text \<open>The (table, column) pairs of a report; a report is in order when no table and no
  column of a table is listed twice.\<close>

definition flagged :: "report \<Rightarrow> (string \<times> string) set" where
  "flagged tws = {(t, c). \<exists>cols. map_of tws t = Some cols \<and> c \<in> set cols}"

definition report_ok :: "report \<Rightarrow> bool" where
  "report_ok tws \<longleftrightarrow> distinct (map fst tws) \<and> list_all (\<lambda>e. distinct (snd e)) tws"

text \<open>What SQLite guarantees of a database: table names are unique and every row has one
  cell per column.\<close>

definition wf_table :: "table \<Rightarrow> bool" where
  "wf_table tb = list_all (\<lambda>r. length (snd r) = length (columns tb)) (rows tb)"

definition wf_db :: "database \<Rightarrow> bool" where
  "wf_db d \<longleftrightarrow> distinct (map tname d) \<and> list_all wf_table d"

subsection \<open>Sample data\<close>

text \<open>The database of the scenario, a connection to it with nothing executed yet, a
  rewriter object in plain mode, and a regular-expression library that rejects every
  pattern (plain mode never calls it).\<close>

definition sql_keywords :: "string list" where
  "sql_keywords = [''select'', ''from'', ''where'', ''order'', ''group'', ''table'', ''index'',
     ''update'', ''set'', ''values'', ''insert'', ''delete'', ''create'', ''drop'', ''and'', ''or'',
     ''not'', ''null'', ''by'', ''as'', ''on'', ''in'', ''is'', ''join'', ''union'', ''limit'']"

definition word_char :: "char \<Rightarrow> bool" where
  "word_char c \<longleftrightarrow> (let n = (of_char c :: nat) in
     (97 \<le> n \<and> n \<le> 122) \<or> (65 \<le> n \<and> n \<le> 90) \<or> (48 \<le> n \<and> n \<le> 57) \<or> n = 95)"

definition digit_char :: "char \<Rightarrow> bool" where
  "digit_char c \<longleftrightarrow> (let n = (of_char c :: nat) in 48 \<le> n \<and> n \<le> 57)"

text \<open>An SQLite under which a name stands unquoted for itself when it is a word of
  letters, digits and underscores that does not start with a digit and is none of the
  keywords listed; columns keep the text written to them, and no constraint is
  declared. \<open>unique_titles\<close> is the same engine for a schema that declares the column
  \<^verbatim>\<open>title\<close> of the table \<^verbatim>\<open>Songs\<close> \<^verbatim>\<open>UNIQUE\<close>.\<close>

definition bare_word :: "string \<Rightarrow> bool" where
  "bare_word n \<longleftrightarrow> n \<noteq> [] \<and> list_all word_char n \<and> \<not> digit_char (hd n)
     \<and> lower n \<notin> set sql_keywords"

definition sqlite :: sqlite_module where
  "sqlite = \<lparr>sql_bare = bare_word, sql_stored = (\<lambda>t col v. Str v), sql_integrity = (\<lambda>d. True)\<rparr>"

definition titles :: "database \<Rightarrow> cell list" where
  "titles d = (case read_column d ''Songs'' ''title'' of Inl e \<Rightarrow> [] | Inr result \<Rightarrow> map snd result)"

definition unique_titles :: sqlite_module where
  "unique_titles = sqlite\<lparr>sql_integrity := (\<lambda>d. distinct (titles d))\<rparr>"

definition no_re :: "unit re_module" where
  "no_re = \<lparr>re_compile = (\<lambda>s ic. None), re_search = (\<lambda>rx s. False),
     re_template_ok = (\<lambda>rx t. True), re_expand = (\<lambda>rx t s. s), re_finditer = (\<lambda>rx s. [])\<rparr>"

definition songs :: database where
  "songs = [\<lparr>tname = ''Songs'', columns = [''id'', ''title''],
     rows = [(1, [IntCell 1, Str ''Amazing Grace'']), (2, [IntCell 2, Str ''How Great Thou Art''])]\<rparr>]"

definition connected :: "database \<Rightarrow> state" where
  "connected d = \<lparr>db = d, disk = d, executed = [], printed = [], matched = []\<rparr>"

definition plain_rewriter :: "bool \<Rightarrow> bool \<Rightarrow> string \<Rightarrow> string \<Rightarrow> 'rx rewriter" where
  "plain_rewriter dry ic search replace =
     \<lparr>dryRun = dry, replacewith = replace, ignorecase = ic, input = Plain search\<rparr>"



definition orders :: database where
  "orders = [\<lparr>tname = ''order'', columns = [''id'', ''title''],
     rows = [(1, [IntCell 1, Str ''How Great Thou Art''])]\<rparr>]"

subsection \<open>Notions used to state the properties of the rewrite pass\<close>

text \<open>Two databases differ only in a set of (table, column) pairs when every other column
  reads the same in both. A statement writes when it is an \<^verbatim>\<open>update\<close> or a commit; a
  state is unwritten with respect to an earlier one when the database, the committed
  database and the writes executed are the same.\<close>

definition only_changed :: "(string \<times> string) set \<Rightarrow> database \<Rightarrow> database \<Rightarrow> bool" where
  "only_changed S d d' \<longleftrightarrow> (\<forall>t c. (t, c) \<notin> S \<longrightarrow> read_column d' t c = read_column d t c)"

fun is_write :: "statement \<Rightarrow> bool" where
  "is_write (Update t col v rowid) = True"
| "is_write Commit = True"
| "is_write q = False"

definition unwritten :: "state \<Rightarrow> state \<Rightarrow> bool" where
  "unwritten st st' \<longleftrightarrow> db st' = db st \<and> disk st' = disk st
     \<and> filter is_write (executed st') = filter is_write (executed st)"

text \<open>The cells of the flagged columns of a database that match, in the order of the
  report, of its columns and of the rows: each with its table, column, \<^verbatim>\<open>rowid\<close> and
  value. \<open>diff_output\<close> is what the diff renderer prints for a cell against the value the
  substituter gives for it.\<close>

type_synonym hit = "string \<times> string \<times> int \<times> cell"







section \<open>Properties\<close>

subsection \<open>Evaluation and basic facts of the string primitives\<close>

lemmas py_eval = lower_def lower_char_def is_upper_def char_of_def bit_Suc_0_iff
  str_find_def str_replace_def norm_index_def slice_def slice_from_def

lemma length_lower [simp]: "length (lower s) = length s"
  by (simp add: lower_def)

lemma lower_append: "lower (xs @ ys) = lower xs @ lower ys"
  by (simp add: lower_def)

lemma str_in_iff: "str_in sub s \<longleftrightarrow> (\<exists>ps ss. s = ps @ sub @ ss)"
proof (induction s)
  case Nil
  then show ?case by auto
next
  case (Cons c cs)
  have "(\<exists>ps ss. c # cs = ps @ sub @ ss) \<longleftrightarrow> sublist sub (c # cs)"
    by (simp add: sublist_def)
  also have "\<dots> \<longleftrightarrow> prefix sub (c # cs) \<or> sublist sub cs"
    by (rule sublist_Cons_right)
  also have "\<dots> \<longleftrightarrow> prefix sub (c # cs) \<or> str_in sub cs"
    using Cons.IH by (simp add: sublist_def)
  finally show ?case by simp
qed

lemma str_in_Nil [simp]: "str_in [] s"
  by (induction s) simp_all

lemma str_in_lower: "str_in sub s \<Longrightarrow> str_in (lower sub) (lower s)"
  unfolding str_in_iff by (metis lower_append)

lemma find_aux_bounds:
  "0 \<le> find_aux sub s i \<Longrightarrow>
     int i \<le> find_aux sub s i \<and> find_aux sub s i + int (length sub) \<le> int i + int (length s)"
proof (induction s arbitrary: i)
  case Nil
  then show ?case by (simp split: if_splits)
next
  case (Cons c cs)
  show ?case
  proof (cases "prefix sub (c # cs)")
    case True
    then have "length sub \<le> length (c # cs)" by (rule prefix_length_le)
    with True show ?thesis by simp
  next
    case False
    with Cons.prems have "0 \<le> find_aux sub cs (Suc i)" by simp
    from Cons.IH [OF this] False show ?thesis by simp
  qed
qed

lemma find_aux_neg: "find_aux sub s i < 0 \<longleftrightarrow> \<not> str_in sub s"
  by (induction s arbitrary: i) auto

lemma find_aux_empty: "find_aux [] s i = int i"
  by (cases s) simp_all

lemma str_find_bounds:
  assumes "0 \<le> start" and "0 \<le> str_find s sub start"
  shows "start \<le> str_find s sub start"
    and "str_find s sub start + int (length sub) \<le> int (length s)"
proof -
  from assms have le: "start \<le> int (length s)"
    by (simp add: str_find_def Let_def split: if_splits)
  with assms have "0 \<le> find_aux sub (drop (nat start) s) (nat start)"
    by (simp add: str_find_def)
  from find_aux_bounds [OF this] assms(1) le
  show "start \<le> str_find s sub start"
    and "str_find s sub start + int (length sub) \<le> int (length s)"
    by (simp_all add: str_find_def)
qed

lemma str_find_empty:
  "0 \<le> start \<Longrightarrow> start \<le> int (length s) \<Longrightarrow> str_find s [] start = start"
  by (simp add: str_find_def find_aux_empty)

lemma str_find_0_neg: "str_find s sub 0 < 0 \<longleftrightarrow> \<not> str_in sub s"
  by (simp add: str_find_def find_aux_neg)

lemma replace_scan_absent: "\<not> str_in old s \<Longrightarrow> replace_scan old new s = s"
  by (induction s) auto

subsection \<open>The matcher\<close>

text \<open>
  Claim C7. The plain-mode matcher, on a string value, returns (and never raises): when
  case-sensitive, whether the value contains the pattern as a contiguous substring;
  when case-insensitive, whether the lower-cased value contains the lower-cased pattern.
  It is a function of its arguments only.
\<close>

theorem searchValuePlain_contract:
  "searchValuePlain False pattern (Str v) = Inr (\<exists>ps ss. v = ps @ pattern @ ss)
   \<and> searchValuePlain True pattern (Str v) = Inr (\<exists>ps ss. lower v = ps @ lower pattern @ ss)"
  by (simp add: str_in_iff)

subsection \<open>The substituter: which branch runs under which flag\<close>

text \<open>
  Claim C1. With the case-insensitive flag set, \<^verbatim>\<open>substituteValuePlain\<close> is expected to
  replace every case-insensitive occurrence: "great" / "GREAT" on "How Great Thou Art"
  should give "How GREAT Thou Art". The code takes the \<^verbatim>\<open>value.replace\<close> branch when
  \<open>ignorecase\<close> is set, which compares case-sensitively: the matcher reports a match and
  the substituter returns the value unchanged.
\<close>

theorem substituteValuePlain_ignorecase_unchanged:
  "searchValuePlain True ''great'' (Str ''How Great Thou Art'') = Inr True
   \<and> substituteValuePlain True ''great'' ''GREAT'' ''How Great Thou Art''
       = Some ''How Great Thou Art''"
  by (simp add: py_eval substituteValuePlain_def)

text \<open>
  Claim C3. With the case-insensitive flag unset, \<^verbatim>\<open>substituteValuePlain\<close> is expected to
  equal the ordinary replace-all. The code runs the lower-casing scan in that case:
  on "How Great Thou Art" with "great" / "GREAT" it rewrites the differently-cased
  occurrence, where \<^verbatim>\<open>str.replace\<close> changes nothing.
\<close>

theorem substituteValuePlain_case_sensitive_differs:
  "substituteValuePlain False ''great'' ''GREAT'' ''How Great Thou Art''
       = Some ''How GREAT Thou Art''
   \<and> str_replace ''How Great Thou Art'' ''great'' ''GREAT'' = ''How Great Thou Art''"
  by (simp add: py_eval substituteValuePlain_def subst_loop.simps)

subsection \<open>Identity when the pattern is absent\<close>

text \<open>With the flag set the branch taken is \<^verbatim>\<open>str.replace\<close>, and a pattern that does not
  occur case-insensitively does not occur case-sensitively either.\<close>

lemma substituteValuePlain_absent_ignorecase:
  assumes "searchValuePlain True pattern (Str v) = Inr False"
  shows "substituteValuePlain True pattern replacement v = Some v"
proof -
  from assms have "\<not> str_in (lower pattern) (lower v)" by simp
  then have absent: "\<not> str_in pattern v" using str_in_lower by blast
  then have "pattern \<noteq> []" by auto
  with absent show ?thesis
    by (simp add: substituteValuePlain_def str_replace_def replace_scan_absent)
qed

text \<open>With the flag unset the scan runs on the lower-cased strings, so the value is
  returned unchanged when the pattern is absent case-insensitively.\<close>

lemma substituteValuePlain_absent_lowered:
  assumes "\<not> str_in (lower pattern) (lower v)"
  shows "substituteValuePlain False pattern replacement v = Some v"
proof (cases "v = []")
  case True
  then show ?thesis by (simp add: substituteValuePlain_def subst_loop.simps)
next
  case False
  from assms have "str_find (lower v) (lower pattern) 0 < 0" by (simp add: str_find_0_neg)
  moreover have "subst_loop pattern replacement v v (int (length v)) = Some v"
    by (subst subst_loop.simps) simp
  ultimately show ?thesis using False
    by (subst substituteValuePlain_def, simp, subst subst_loop.simps)
      (simp add: slice_from_def norm_index_def)
qed

text \<open>
  Claim C4. A non-empty pattern that does not occur in \<open>v\<close> under the configured match
  semantics should leave \<open>v\<close> unchanged. With the flag unset the configured matcher is
  case-sensitive: it does not find "a" in "A", yet the substituter, which scans the
  lower-cased strings in that branch, rewrites the value.
\<close>

theorem substituteValuePlain_absent_changed:
  "searchValuePlain False ''a'' (Str ''A'') = Inr False
   \<and> substituteValuePlain False ''a'' ''x'' ''A'' = Some ''x''"
  by (simp add: py_eval substituteValuePlain_def subst_loop.simps)

subsection \<open>Termination of the scanning loop\<close>

text \<open>Each iteration either jumps to the end of the value or moves \<open>lastIndex\<close> to
  \<open>index + len(searchstring)\<close>, where \<open>index \<ge> lastIndex\<close>: with a non-empty search
  string the distance to the end of the value decreases.\<close>

lemma subst_loop_advances:
  assumes "searchstring \<noteq> []" and "0 \<le> lastIndex" and "lastIndex < int (length val)"
  shows "lastIndex < (let index = str_find (lower val) (lower searchstring) lastIndex
                      in if index < 0 then int (length val)
                         else index + int (length searchstring))"
proof (cases "str_find (lower val) (lower searchstring) lastIndex < 0")
  case True
  with assms(3) show ?thesis by (simp add: Let_def)
next
  case False
  then have nn: "0 \<le> str_find (lower val) (lower searchstring) lastIndex" by simp
  have "0 < length searchstring" using assms(1) by simp
  with str_find_bounds(1) [OF assms(2) nn]
  have "lastIndex < str_find (lower val) (lower searchstring) lastIndex
      + int (length searchstring)"
    by linarith
  with False show ?thesis by (simp add: Let_def)
qed

lemma subst_loop_terminates:
  assumes "searchstring \<noteq> []" and "0 \<le> lastIndex"
  shows "\<exists>y. subst_loop searchstring replacement val newstr lastIndex = Some y"
  using assms(2)
proof (induction "nat (int (length val) - lastIndex)" arbitrary: newstr lastIndex
    rule: less_induct)
  case less
  show ?case
  proof (cases "lastIndex < int (length val)")
    case False
    then show ?thesis by (subst subst_loop.simps) simp
  next
    case inside: True
    let ?index = "str_find (lower val) (lower searchstring) lastIndex"
    show ?thesis
    proof (cases "?index < 0")
      case True
      have "\<exists>y. subst_loop searchstring replacement val
              (newstr @ slice_from val lastIndex) (int (length val)) = Some y"
        by (subst subst_loop.simps) simp
      with inside True show ?thesis by (subst subst_loop.simps) simp
    next
      case False
      then have nn: "0 \<le> ?index" by simp
      have "0 < length searchstring" using assms(1) by simp
      with str_find_bounds(1) [OF less.prems nn]
      have adv: "lastIndex < ?index + int (length searchstring)" by linarith
      then have "nat (int (length val) - (?index + int (length searchstring)))
            < nat (int (length val) - lastIndex)"
        using inside by linarith
      moreover from adv less.prems have "0 \<le> ?index + int (length searchstring)" by simp
      ultimately have "\<exists>y. subst_loop searchstring replacement val
            (newstr @ slice val lastIndex ?index @ replacement)
            (?index + int (length searchstring)) = Some y"
        by (rule less.hyps)
      with inside False show ?thesis by (subst subst_loop.simps) (simp add: Let_def)
    qed
  qed
qed

text \<open>With the empty search string \<^verbatim>\<open>find\<close> returns \<open>lastIndex\<close> itself and the loop
  repeats in the same state: no approximation of the loop returns a value.\<close>

lemma subst_loop_empty_search:
  assumes "subst_loop searchstring replacement val newstr lastIndex = Some y"
  shows "\<not> (searchstring = [] \<and> 0 \<le> lastIndex \<and> lastIndex < int (length val))"
proof (rule subst_loop.raw_induct
    [where P = "\<lambda>s r v acc i y. \<not> (s = [] \<and> 0 \<le> i \<and> i < int (length v))", OF _ assms])
  fix loop :: "string \<Rightarrow> string \<Rightarrow> string \<Rightarrow> string \<Rightarrow> int \<Rightarrow> string option"
    and s r v acc :: string and i :: int and y :: string
  assume IH: "\<And>s r v acc i y. loop s r v acc i = Some y \<Longrightarrow>
      \<not> (s = [] \<and> 0 \<le> i \<and> i < int (length v))"
    and body: "(if i < int (length v) then
        (let index = str_find (lower v) (lower s) i in
         if index < 0 then loop s r v (acc @ slice_from v i) (int (length v))
         else loop s r v (acc @ slice v i index @ r) (index + int (length s)))
      else Some acc) = Some y"
  show "\<not> (s = [] \<and> 0 \<le> i \<and> i < int (length v))"
  proof
    assume a: "s = [] \<and> 0 \<le> i \<and> i < int (length v)"
    then have "str_find (lower v) (lower s) i = i"
      by (simp add: str_find_empty lower_def)
    with a body have "loop s r v (acc @ slice v i i @ r) i = Some y"
      by (simp add: Let_def)
    from IH [OF this] a show False by simp
  qed
qed

lemma subst_loop_diverges:
  "0 \<le> lastIndex \<Longrightarrow> lastIndex < int (length val) \<Longrightarrow>
     subst_loop [] replacement val newstr lastIndex = None"
  using subst_loop_empty_search [of "[]" replacement val newstr lastIndex]
  by (cases "subst_loop [] replacement val newstr lastIndex") auto

text \<open>
  Claim C10 (as amended). The scanning loop of the plain-mode substituter (the branch
  taken when the case-insensitive flag is unset) returns for every value when the search
  string is non-empty. With the empty search string it does not return on any non-empty
  value; on the empty value the loop body is never entered and the empty string is
  returned.
\<close>

theorem substituteValuePlain_termination:
  "(searchstring \<noteq> [] \<longrightarrow>
      (\<exists>y. substituteValuePlain False searchstring replacement val = Some y))
   \<and> (val \<noteq> [] \<longrightarrow> substituteValuePlain False [] replacement val = None)
   \<and> substituteValuePlain False [] replacement [] = Some []"
proof (intro conjI impI)
  assume "searchstring \<noteq> []"
  then show "\<exists>y. substituteValuePlain False searchstring replacement val = Some y"
    by (simp add: substituteValuePlain_def subst_loop_terminates)
next
  assume "val \<noteq> []"
  then show "substituteValuePlain False [] replacement val = None"
    by (simp add: substituteValuePlain_def subst_loop_diverges)
next
  show "substituteValuePlain False [] replacement [] = Some []"
    by (simp add: substituteValuePlain_def subst_loop.simps)
qed

theorem substituteValuePlain_termination_witness:
  "''great'' \<noteq> [] \<and> (\<exists>y. substituteValuePlain False ''great'' ''GREAT'' ''How Great'' = Some y)
   \<and> ''ab'' \<noteq> [] \<and> substituteValuePlain False [] ''x'' ''ab'' = None"
  using substituteValuePlain_termination [of "''great''" "''GREAT''" "''How Great''"]
    substituteValuePlain_termination [of "[]" "''x''" "''ab''"]
  by simp

text \<open>The claim as first stated ("with the empty search string the loop does not
  terminate") fails on the empty value.\<close>

theorem substituteValuePlain_empty_value_returns:
  "\<not> (\<forall>val replacement. substituteValuePlain False [] replacement val = None)"
proof
  assume "\<forall>val replacement. substituteValuePlain False [] replacement val = None"
  then have "substituteValuePlain False [] [] [] = None" by blast
  then show False by (simp add: substituteValuePlain_def subst_loop.simps)
qed

subsection \<open>The diff renderers\<close>

text \<open>Adjacent slices with non-negative, ordered bounds join up, whatever the length of
  the string.\<close>

lemma slice_append_slice_from:
  "0 \<le> a \<Longrightarrow> a \<le> b \<Longrightarrow> slice s a b @ slice_from s b = slice_from s a"
proof -
  assume a: "0 \<le> a" "a \<le> b"
  let ?lo = "min (nat a) (length s)" and ?hi = "min (nat b) (length s)"
  from a have le: "?lo \<le> ?hi" by simp
  have "take (?hi - ?lo) (drop ?lo s) @ drop (?hi - ?lo) (drop ?lo s) = drop ?lo s"
    by (rule append_take_drop_id)
  moreover from le have "drop (?hi - ?lo) (drop ?lo s) = drop ?hi s" by simp
  ultimately show ?thesis using a by (simp add: slice_def slice_from_def norm_index_def Let_def)
qed

lemma slice_from_0 [simp]: "slice_from s 0 = s"
  by (simp add: slice_from_def norm_index_def)

text \<open>The regex renderer: each iteration appends to \<open>original\<close> the text of \<open>val\<close>
  from \<open>lastIndex\<close> to the end of the match, and to \<open>new\<close> the text of \<open>newValue\<close> from
  \<open>lastIndex + discrepency\<close> to the new value of that sum.\<close>

lemma diff_regex_loop_invariant:
  assumes "spans_ok lastIndex ms" and "0 \<le> lastIndex" and "0 \<le> lastIndex + discrepency"
    and "diff_regex_loop re search replace val newValue ms original new lastIndex discrepency
           = Inr (original', new', lastIndex', discrepency')"
  shows "\<exists>ext_o ext_n. original' = original @ ext_o \<and> new' = new @ ext_n
           \<and> concat (map span_text ext_o) @ slice_from val lastIndex' = slice_from val lastIndex
           \<and> concat (map span_text ext_n) @ slice_from newValue (lastIndex' + discrepency')
               = slice_from newValue (lastIndex + discrepency)"
  using assms
proof (induction ms arbitrary: original new lastIndex discrepency)
  case Nil
  then show ?case by simp
next
  case (Cons m ms)
  from Cons.prems(4) obtain isolated where
    sub: "re_sub re search replace (slice val (fst m) (snd m)) = Inr isolated"
    by (auto split: sum.splits)
  let ?sublen = "int (length isolated)"
  let ?o1 = "original @ [Unmarked (slice val lastIndex (fst m)), Red (slice val (fst m) (snd m))]"
  let ?n1 = "new @ [Unmarked (slice newValue (lastIndex + discrepency) (fst m + discrepency)),
                  Green (slice newValue (fst m + discrepency) (fst m + discrepency + ?sublen))]"
  let ?d1 = "discrepency + (?sublen - (snd m - fst m))"
  from Cons.prems(4) sub have rec:
    "diff_regex_loop re search replace val newValue ms ?o1 ?n1 (snd m) ?d1
       = Inr (original', new', lastIndex', discrepency')"
    by (simp add: Let_def)
  from Cons.prems(1) have ord: "lastIndex \<le> fst m" "fst m \<le> snd m" "spans_ok (snd m) ms"
    by simp_all
  from ord Cons.prems(2,3) have nn: "0 \<le> snd m" "0 \<le> snd m + ?d1" by simp_all
  from Cons.IH [OF ord(3) nn rec] obtain ext_o ext_n where
    ext: "original' = ?o1 @ ext_o" "new' = ?n1 @ ext_n"
      "concat (map span_text ext_o) @ slice_from val lastIndex' = slice_from val (snd m)"
      "concat (map span_text ext_n) @ slice_from newValue (lastIndex' + discrepency')
         = slice_from newValue (snd m + ?d1)"
    by blast
  have e1: "snd m + ?d1 = fst m + discrepency + ?sublen" by simp
  have o: "slice val lastIndex (fst m) @ slice val (fst m) (snd m) @ slice_from val (snd m)
        = slice_from val lastIndex"
    using ord Cons.prems(2) by (simp add: slice_append_slice_from)
  have n: "slice newValue (lastIndex + discrepency) (fst m + discrepency)
        @ slice newValue (fst m + discrepency) (fst m + discrepency + ?sublen)
        @ slice_from newValue (fst m + discrepency + ?sublen)
        = slice_from newValue (lastIndex + discrepency)"
    using ord Cons.prems(2,3) by (simp add: slice_append_slice_from)
  show ?case
  proof (intro exI conjI)
    show "original' = original @ ([Unmarked (slice val lastIndex (fst m)),
        Red (slice val (fst m) (snd m))] @ ext_o)"
      using ext(1) by simp
    show "new' = new @ ([Unmarked (slice newValue (lastIndex + discrepency) (fst m + discrepency)),
        Green (slice newValue (fst m + discrepency) (fst m + discrepency + ?sublen))] @ ext_n)"
      using ext(2) by simp
    show "concat (map span_text ([Unmarked (slice val lastIndex (fst m)),
        Red (slice val (fst m) (snd m))] @ ext_o)) @ slice_from val lastIndex'
        = slice_from val lastIndex"
      using ext(3) o by simp
    show "concat (map span_text ([Unmarked (slice newValue (lastIndex + discrepency)
          (fst m + discrepency)),
        Green (slice newValue (fst m + discrepency) (fst m + discrepency + ?sublen))] @ ext_n))
        @ slice_from newValue (lastIndex' + discrepency')
        = slice_from newValue (lastIndex + discrepency)"
      using ext(4) n e1 by simp
  qed
qed

lemma diff_regex_loop_returns:
  "re_template_ok re search replace \<Longrightarrow>
     \<exists>res. diff_regex_loop re search replace val newValue ms original new lastIndex discrepency
            = Inr res"
  by (induction ms arbitrary: original new lastIndex discrepency) (simp_all add: re_sub_def Let_def)

text \<open>Hence the regex renderer reconstructs both strings, for any replacement template
  that \<^verbatim>\<open>re.sub\<close> accepts.\<close>

lemma printDifferenceRegex_reconstructs:
  assumes "spans_ok 0 (re_finditer re search val)" and "re_template_ok re search replace"
  shows "\<exists>original new. printDifferenceRegex re search replace val newValue = Inr (original, new)
     \<and> reconstruct original = val \<and> reconstruct new = newValue"
proof -
  from diff_regex_loop_returns [OF assms(2)] obtain original' new' lastIndex' discrepency' where
    loop: "diff_regex_loop re search replace val newValue (re_finditer re search val)
        [Red ''- ''] [Green ''+ ''] 0 0 = Inr (original', new', lastIndex', discrepency')"
    by (metis prod_cases4)
  from diff_regex_loop_invariant [OF assms(1) _ _ loop] obtain ext_o ext_n where
    ext: "original' = [Red ''- ''] @ ext_o" "new' = [Green ''+ ''] @ ext_n"
      "concat (map span_text ext_o) @ slice_from val lastIndex' = val"
      "concat (map span_text ext_n) @ slice_from newValue (lastIndex' + discrepency') = newValue"
    by auto
  from loop ext show ?thesis
    by (simp add: printDifferenceRegex_def reconstruct_def)
qed

text \<open>
  Claim C2. Both renderers are expected to emit spans whose concatenation is the original
  string on one line and the substituted string on the other. The regex renderer does
  (lemma \<open>printDifferenceRegex_reconstructs\<close>). The plain renderer appends the rest of
  both strings in every iteration of its loop instead of once after it, and moves its
  offset by \<open>len(search) - len(replace)\<close> instead of \<open>len(replace) - len(search)\<close>:
  with two occurrences of "la" in "la la" both lines repeat text, and with one
  occurrence of "X" replaced by the longer "YY" the new line repeats text.
\<close>

theorem printDifferencePlain_repeats_text:
  "substituteValuePlain False ''la'' ''LA'' ''la la'' = Some ''LA LA''
   \<and> map_option (\<lambda>(printed, original, new). (reconstruct original, reconstruct new))
        (printDifferencePlain False ''la'' ''LA'' ''la la'' ''LA LA'')
       = Some (''la la la'', ''LA LA LA'')
   \<and> substituteValuePlain False ''X'' ''YY'' ''aXb'' = Some ''aYYb''
   \<and> map_option (\<lambda>(printed, original, new). (reconstruct original, reconstruct new))
        (printDifferencePlain False ''X'' ''YY'' ''aXb'' ''aYYb'')
       = Some (''aXb'', ''aYYYYbYb'')"
  by (simp add: py_eval substituteValuePlain_def subst_loop.simps printDifferencePlain_def
      diff_loop.simps reconstruct_def)

subsection \<open>The scan pass\<close>

text \<open>Evaluation of the sample engine and of whole runs.\<close>

lemma bare_word_samples [simp]:
  "bare_word ''Songs''" "bare_word ''title''" "\<not> bare_word ''order''"
  by (simp_all add: bare_word_def word_char_def digit_char_def sql_keywords_def py_eval)

lemmas run_eval = EWDatabaseRewriter_def runReplacement_def getTables_def
  getTablesWhereStringExists_def startReplacement_def process_row_def
  select_all_def select_column_def read_table_def read_column_def find_table_def
  update_cell_def write_cell_def update_rows_def
  record_column_def execute_def py_print_def commit_def connected_def Let_def
  sqlite_def unique_titles_def titles_def plain_rewriter_def

lemma searchValue_Str: "\<exists>b. searchValue re self search (Str v) = Inr b"
  by (cases search) simp_all

lemma flagged_record_column: "flagged (record_column t n tws) = insert (t, n) (flagged tws)"
  by (auto simp: flagged_def record_column_def update_conv' split: option.splits if_splits)

lemma report_ok_update:
  "report_ok tws \<Longrightarrow> distinct cols \<Longrightarrow> report_ok (AList.update t cols tws)"
  unfolding report_ok_def
proof (induction tws)
  case Nil
  then show ?case by simp
next
  case (Cons e tws)
  then show ?case by (cases e) (auto simp: distinct_update AList.update_keys intro: distinct_update)
qed

lemma report_ok_map_of: "report_ok tws \<Longrightarrow> map_of tws t = Some cols \<Longrightarrow> distinct cols"
  unfolding report_ok_def by (induction tws) (auto split: if_splits)

lemma report_ok_record_column: "report_ok tws \<Longrightarrow> report_ok (record_column t n tws)"
  by (auto simp: record_column_def split: option.splits
      intro!: report_ok_update dest: report_ok_map_of)

lemma scan_cells_correct:
  assumes "i + length cells \<le> length names" and "report_ok tws"
  shows "\<exists>tws'. scan_cells re self search t names i cells (tws, n)
        = Inr (tws', n + length (matching_columns re self search (drop i names) cells))
      \<and> flagged tws' = flagged tws
           \<union> {t} \<times> set (matching_columns re self search (drop i names) cells)
      \<and> report_ok tws'"
  using assms
proof (induction cells arbitrary: i tws n)
  case Nil
  then show ?case by (simp add: matching_columns_def)
next
  case (Cons c cells)
  from Cons.prems(1) have i: "i < length names" and rest: "Suc i + length cells \<le> length names"
    by simp_all
  from i have names: "drop i names = names ! i # drop (Suc i) names"
    by (simp add: Cons_nth_drop_Suc)
  show ?case
  proof (cases "cell_matches re self search c")
    case True
    then obtain v where c: "c = Str v" and hit: "searchValue re self search c = Inr True"
      by (auto simp: cell_matches_def split: cell.splits)
    from Cons.IH [OF rest report_ok_record_column [OF Cons.prems(2)], where n = "n + 1"]
    obtain tws' where
      "scan_cells re self search t names (Suc i) cells (record_column t (names ! i) tws, n + 1)
        = Inr (tws', n + 1 + length (matching_columns re self search (drop (Suc i) names) cells))"
      "flagged tws' = flagged (record_column t (names ! i) tws)
           \<union> {t} \<times> set (matching_columns re self search (drop (Suc i) names) cells)"
      "report_ok tws'"
      by blast
    with True c hit i names show ?thesis
      by (auto simp: matching_columns_def flagged_record_column)
  next
    case False
    from Cons.IH [OF rest Cons.prems(2), where n = n]
    obtain tws' where
      "scan_cells re self search t names (Suc i) cells (tws, n)
        = Inr (tws', n + length (matching_columns re self search (drop (Suc i) names) cells))"
      "flagged tws' = flagged tws
           \<union> {t} \<times> set (matching_columns re self search (drop (Suc i) names) cells)"
      "report_ok tws'"
      by blast
    moreover have "scan_cells re self search t names i (c # cells) (tws, n)
        = scan_cells re self search t names (Suc i) cells (tws, n)"
    proof (cases c)
      case (Str v)
      with False searchValue_Str [of re self search v] show ?thesis
        by (auto simp: cell_matches_def)
    qed simp_all
    ultimately show ?thesis using False names
      by (auto simp: matching_columns_def)
  qed
qed


lemma scan_rows_correct:
  assumes "list_all (\<lambda>r. length r = length names) res" and "report_ok tws"
  shows "\<exists>tws'. scan_rows re self search t names res (tws, n)
        = Inr (tws', n + length (concat (map (matching_columns re self search names) res)))
      \<and> flagged tws' = flagged tws
           \<union> {t} \<times> set (concat (map (matching_columns re self search names) res))
      \<and> report_ok tws'"
  using assms
proof (induction res arbitrary: tws n)
  case Nil
  then show ?case by simp
next
  case (Cons r res)
  from Cons.prems(1) have len: "0 + length r \<le> length names"
    and rest: "list_all (\<lambda>r. length r = length names) res"
    by simp_all
  from scan_cells_correct [OF len Cons.prems(2), of re self search t n]
  obtain tws1 where
    cells: "scan_cells re self search t names 0 r (tws, n)
        = Inr (tws1, n + length (matching_columns re self search names r))"
    and fl1: "flagged tws1 = flagged tws \<union> {t} \<times> set (matching_columns re self search names r)"
    and ok1: "report_ok tws1"
    by auto
  from Cons.IH [OF rest ok1, where n = "n + length (matching_columns re self search names r)"]
  obtain tws' where
    "scan_rows re self search t names res
        (tws1, n + length (matching_columns re self search names r))
      = Inr (tws', n + length (matching_columns re self search names r)
            + length (concat (map (matching_columns re self search names) res)))"
    "flagged tws' = flagged tws1
         \<union> {t} \<times> set (concat (map (matching_columns re self search names) res))"
    "report_ok tws'"
    by blast
  with cells fl1 show ?case by auto
qed

lemma table_columns_scan:
  assumes "find_table d t = Some tb" and "wf_table tb" and "report_ok tws"
  shows "\<exists>names res tws'. read_table d t = Inr (names, res)
      \<and> scan_rows re self search t names res (tws, n)
          = Inr (tws', n + length (table_columns re self search tb))
      \<and> flagged tws' = flagged tws \<union> {t} \<times> set (table_columns re self search tb)
      \<and> report_ok tws'"
proof -
  from assms(2) have "list_all (\<lambda>r. length r = length (columns tb)) (map snd (rows tb))"
    by (simp add: wf_table_def list_all_iff)
  from scan_rows_correct [OF this assms(3), of re self search t n] assms(1)
  show ?thesis by (simp add: read_table_def table_columns_def comp_def)
qed

lemma scan_tables_correct:
  assumes "list_all (\<lambda>t. \<exists>tb. find_table (db st) t = Some tb \<and> wf_table tb) ts"
    and "report_ok tws" and "list_all (sql_bare sq) ts"
  shows "\<exists>tws' st'. scan_tables re sq self search ts (tws, n) st
        = (Inr (tws', n + (\<Sum>t\<leftarrow>ts. length (table_columns re self search
                                         (the (find_table (db st) t))))), st')
      \<and> flagged tws' = flagged tws
           \<union> (\<Union>t\<in>set ts. {t} \<times> set (table_columns re self search (the (find_table (db st) t))))
      \<and> report_ok tws'
      \<and> db st' = db st \<and> disk st' = disk st \<and> matched st' = matched st
      \<and> printed st' = printed st \<and> executed st' = executed st @ map SelectAll ts"
  using assms
proof (induction ts arbitrary: tws n st)
  case Nil
  then show ?case by simp
next
  case (Cons t ts)
  let ?st1 = "execute (SelectAll t) st"
  have db1: "db ?st1 = db st" by (simp add: execute_def)
  from Cons.prems(1) obtain tb where tb: "find_table (db st) t = Some tb" "wf_table tb"
    by auto
  from table_columns_scan [OF tb Cons.prems(2), of re self search n]
  obtain names res tws1 where
    "read_table (db st) t = Inr (names, res)"
    and rows: "scan_rows re self search t names res (tws, n)
          = Inr (tws1, n + length (table_columns re self search tb))"
    and fl1: "flagged tws1 = flagged tws \<union> {t} \<times> set (table_columns re self search tb)"
    and ok1: "report_ok tws1"
    by blast
  with Cons.prems(3) have sel: "select_all sq (db st) t = Inr (names, res)"
    by (simp add: select_all_def)
  from Cons.prems(1) db1
  have rest: "list_all (\<lambda>t. \<exists>tb. find_table (db ?st1) t = Some tb \<and> wf_table tb) ts"
    by simp
  from Cons.prems(3) have bare: "list_all (sql_bare sq) ts" by simp
  from Cons.IH [OF rest ok1 bare, where n = "n + length (table_columns re self search tb)"]
  obtain tws' st' where
    "scan_tables re sq self search ts (tws1, n + length (table_columns re self search tb)) ?st1
        = (Inr (tws', n + length (table_columns re self search tb)
                 + (\<Sum>t\<leftarrow>ts. length (table_columns re self search
                                         (the (find_table (db ?st1) t))))), st')"
    "flagged tws' = flagged tws1
           \<union> (\<Union>t\<in>set ts. {t} \<times> set (table_columns re self search
                                         (the (find_table (db ?st1) t))))"
    "report_ok tws'"
    "db st' = db ?st1" "disk st' = disk ?st1" "matched st' = matched ?st1"
    "printed st' = printed ?st1" "executed st' = executed ?st1 @ map SelectAll ts"
    by blast
  with sel rows fl1 tb db1 show ?case
    by (auto simp: Let_def execute_def)
qed

lemma scan_tables_refused:
  assumes "list_all (\<lambda>t. \<exists>tb. find_table (db st) t = Some tb \<and> wf_table tb) ts"
    and "report_ok tws" and "\<not> list_all (sql_bare sq) ts"
  shows "\<exists>st'. scan_tables re sq self search ts (tws, n) st = (Inl OperationalError, st')
      \<and> db st' = db st \<and> disk st' = disk st \<and> printed st' = printed st"
  using assms
proof (induction ts arbitrary: tws n st)
  case Nil
  then show ?case by simp
next
  case (Cons t ts)
  let ?st1 = "execute (SelectAll t) st"
  have db1: "db ?st1 = db st" "disk ?st1 = disk st" "printed ?st1 = printed st"
    by (simp_all add: execute_def)
  show ?case
  proof (cases "sql_bare sq t")
    case False
    then show ?thesis by (simp add: select_all_def Let_def db1)
  next
    case True
    from Cons.prems(1) obtain tb where tb: "find_table (db st) t = Some tb" "wf_table tb"
      by auto
    from table_columns_scan [OF tb Cons.prems(2), of re self search n]
    obtain names res tws1 where
      "read_table (db st) t = Inr (names, res)"
      and rows: "scan_rows re self search t names res (tws, n)
            = Inr (tws1, n + length (table_columns re self search tb))"
      and ok1: "report_ok tws1"
      by blast
    with True have sel: "select_all sq (db st) t = Inr (names, res)"
      by (simp add: select_all_def)
    from Cons.prems(1) db1
    have rest: "list_all (\<lambda>t. \<exists>tb. find_table (db ?st1) t = Some tb \<and> wf_table tb) ts"
      by simp
    from Cons.prems(3) True have "\<not> list_all (sql_bare sq) ts" by simp
    from Cons.IH [OF rest ok1 this, where n = "n + length (table_columns re self search tb)"]
    obtain st' where
      "scan_tables re sq self search ts (tws1, n + length (table_columns re self search tb)) ?st1
          = (Inl OperationalError, st')"
      "db st' = db ?st1" "disk st' = disk ?st1" "printed st' = printed ?st1"
      by blast
    with sel rows db1 show ?thesis by (simp add: Let_def)
  qed
qed

lemma find_table_member:
  "distinct (map tname d) \<Longrightarrow> tb \<in> set d \<Longrightarrow> find_table d (tname tb) = Some tb"
  unfolding find_table_def by (induction d) (auto simp: rev_image_eqI)

lemma length_matching_columns:
  "length r = length names \<Longrightarrow>
     length (matching_columns re self search names r)
       = length (filter (cell_matches re self search) r)"
proof (induction r arbitrary: names)
  case Nil
  then show ?case by (simp add: matching_columns_def)
next
  case (Cons c r)
  then obtain nm names' where "names = nm # names'" "length r = length names'"
    by (cases names) auto
  with Cons.IH [of names'] show ?case by (simp add: matching_columns_def)
qed


lemma set_table_columns:
  "set (table_columns re self search tb)
     = {c. \<exists>r cell. r \<in> set (rows tb) \<and> (c, cell) \<in> set (zip (columns tb) (snd r))
            \<and> cell_matches re self search cell}"
  by (force simp: table_columns_def matching_columns_def)

lemma length_table_columns:
  assumes "wf_table tb"
  shows "length (table_columns re self search tb)
     = (\<Sum>r\<leftarrow>rows tb. length (filter (cell_matches re self search) (snd r)))"
proof -
  have "(\<Sum>r\<leftarrow>rows tb. length (matching_columns re self search (columns tb) (snd r)))
      = (\<Sum>r\<leftarrow>rows tb. length (filter (cell_matches re self search) (snd r)))"
    using assms
    by (intro arg_cong [where f = sum_list] map_cong refl length_matching_columns)
      (simp add: wf_table_def list_all_iff)
  then show ?thesis
    by (simp add: table_columns_def length_concat comp_def)
qed


lemma flagged_Nil [simp]: "flagged [] = {}"
  by (simp add: flagged_def)

lemma listed_tables:
  assumes "wf_db (db st)"
  shows "list_all (\<lambda>t. \<exists>tb. find_table (db (snd (getTables st))) t = Some tb \<and> wf_table tb)
           (map tname (db st))"
proof -
  from assms have dist: "distinct (map tname (db st))" and wf: "list_all wf_table (db st)"
    by (simp_all add: wf_db_def)
  have db1: "db (snd (getTables st)) = db st" by (simp add: getTables_def execute_def)
  show ?thesis
    unfolding db1 list_all_iff
  proof
    fix t assume "t \<in> set (map tname (db st))"
    then obtain tb where "tb \<in> set (db st)" "t = tname tb" by auto
    with find_table_member [OF dist] wf show "\<exists>tb. find_table (db st) t = Some tb \<and> wf_table tb"
      by (auto simp: list_all_iff)
  qed
qed

lemma scan_from_getTables:
  assumes "wf_db (db st)" and "list_all (sql_bare sq) (map tname (db st))"
  shows "\<exists>tws st2.
     scan_tables re sq self search (map tname (db st)) ([], 0) (snd (getTables st))
        = (Inr (tws, (\<Sum>tb\<leftarrow>db st. \<Sum>r\<leftarrow>rows tb.
                        length (filter (cell_matches re self search) (snd r)))), st2)
     \<and> flagged tws = (\<Union>tb\<in>set (db st). {tname tb} \<times> set (table_columns re self search tb))
     \<and> report_ok tws \<and> db st2 = db st \<and> disk st2 = disk st"
proof -
  let ?d = "db st"
  let ?st1 = "snd (getTables st)"
  from assms have dist: "distinct (map tname ?d)" and wf: "list_all wf_table ?d"
    by (simp_all add: wf_db_def)
  have db1: "db ?st1 = ?d" "disk ?st1 = disk st" by (simp_all add: getTables_def execute_def)
  have found: "find_table ?d (tname tb) = Some tb" if "tb \<in> set ?d" for tb
    using dist that by (rule find_table_member)
  have ts: "list_all (\<lambda>t. \<exists>tb. find_table (db ?st1) t = Some tb \<and> wf_table tb) (map tname ?d)"
    using assms(1) by (rule listed_tables)
  have ok: "report_ok []" by (simp add: report_ok_def)
  from scan_tables_correct [OF ts ok assms(2), of re self search 0]
  obtain tws st2 where
    scan: "scan_tables re sq self search (map tname ?d) ([], 0) ?st1
        = (Inr (tws, 0 + (\<Sum>t\<leftarrow>map tname ?d. length (table_columns re self search
                                         (the (find_table (db ?st1) t))))), st2)"
    and fl: "flagged tws = flagged [] \<union> (\<Union>t\<in>set (map tname ?d).
                {t} \<times> set (table_columns re self search (the (find_table (db ?st1) t))))"
    and rok: "report_ok tws" and st2: "db st2 = db ?st1" "disk st2 = disk ?st1"
    by blast
  have total: "(\<Sum>t\<leftarrow>map tname ?d. length (table_columns re self search (the (find_table ?d t))))
      = (\<Sum>tb\<leftarrow>?d. \<Sum>r\<leftarrow>rows tb. length (filter (cell_matches re self search) (snd r)))"
  proof -
    have "(\<Sum>tb\<leftarrow>?d. length (table_columns re self search (the (find_table ?d (tname tb)))))
        = (\<Sum>tb\<leftarrow>?d. \<Sum>r\<leftarrow>rows tb. length (filter (cell_matches re self search) (snd r)))"
    proof (intro arg_cong [where f = sum_list] map_cong refl)
      fix tb assume tb: "tb \<in> set ?d"
      with wf have "wf_table tb" by (simp add: list_all_iff)
      with found [OF tb] show "length (table_columns re self search (the (find_table ?d (tname tb))))
          = (\<Sum>r\<leftarrow>rows tb. length (filter (cell_matches re self search) (snd r)))"
        by (simp add: length_table_columns)
    qed
    then show ?thesis by (simp add: comp_def)
  qed
  have fl': "flagged tws = (\<Union>tb\<in>set ?d. {tname tb} \<times> set (table_columns re self search tb))"
    unfolding fl db1 using found by simp
  from scan total fl' rok st2 db1 show ?thesis by simp
qed

text \<open>When every table name stands unquoted for itself, the scan pass returns a report
  and a count without raising, whatever the non-string cells are: a (table, column) pair
  is in the report iff some string cell of that column matches the pattern; no table and
  no column of a table is recorded twice; the count is the number of matching string
  cells; the database is left as it was.\<close>

lemma getTablesWhereStringExists_bare_names:
  assumes "wf_db (db st)" and "list_all (sql_bare sq) (map tname (db st))"
  shows "\<exists>tws total st'.
     getTablesWhereStringExists re sq self (fst (getTables st)) search (snd (getTables st))
       = (Inr (tws, total), st')
     \<and> (\<forall>t c. (\<exists>cols. map_of tws t = Some cols \<and> c \<in> set cols) \<longleftrightarrow>
           (\<exists>tb r cell. tb \<in> set (db st) \<and> tname tb = t \<and> r \<in> set (rows tb)
              \<and> (c, cell) \<in> set (zip (columns tb) (snd r))
              \<and> cell_matches re self search cell))
     \<and> distinct (map fst tws)
     \<and> (\<forall>t cols. map_of tws t = Some cols \<longrightarrow> distinct cols)
     \<and> total = (\<Sum>tb\<leftarrow>db st. \<Sum>r\<leftarrow>rows tb. length (filter (cell_matches re self search) (snd r)))
     \<and> db st' = db st \<and> disk st' = disk st"
proof -
  let ?d = "db st"
  let ?total = "\<Sum>tb\<leftarrow>?d. \<Sum>r\<leftarrow>rows tb. length (filter (cell_matches re self search) (snd r))"
  from scan_from_getTables [OF assms, of re self search]
  obtain tws st2 where
    scan: "scan_tables re sq self search (map tname ?d) ([], 0) (snd (getTables st))
        = (Inr (tws, ?total), st2)"
    and fl: "flagged tws = (\<Union>tb\<in>set ?d. {tname tb} \<times> set (table_columns re self search tb))"
    and rok: "report_ok tws" and st2: "db st2 = ?d" "disk st2 = disk st"
    by blast
  let ?st' = "py_print (Found ?total (length tws) # map (\<lambda>(t, cols). TableLine t cols) tws) st2"
  have res: "getTablesWhereStringExists re sq self (fst (getTables st)) search (snd (getTables st))
      = (Inr (tws, ?total), ?st')"
    using scan by (simp add: getTablesWhereStringExists_def getTables_def)
  have pairs: "\<forall>t c. (\<exists>cols. map_of tws t = Some cols \<and> c \<in> set cols) \<longleftrightarrow>
           (\<exists>tb r cell. tb \<in> set ?d \<and> tname tb = t \<and> r \<in> set (rows tb)
              \<and> (c, cell) \<in> set (zip (columns tb) (snd r))
              \<and> cell_matches re self search cell)"
  proof (intro allI)
    fix t c
    have "(\<exists>cols. map_of tws t = Some cols \<and> c \<in> set cols) \<longleftrightarrow> (t, c) \<in> flagged tws"
      by (simp add: flagged_def)
    also have "\<dots> \<longleftrightarrow> (\<exists>tb\<in>set ?d. tname tb = t \<and> c \<in> set (table_columns re self search tb))"
      unfolding fl by blast
    also have "\<dots> \<longleftrightarrow> (\<exists>tb r cell. tb \<in> set ?d \<and> tname tb = t \<and> r \<in> set (rows tb)
              \<and> (c, cell) \<in> set (zip (columns tb) (snd r))
              \<and> cell_matches re self search cell)"
      unfolding set_table_columns by blast
    finally show "(\<exists>cols. map_of tws t = Some cols \<and> c \<in> set cols) \<longleftrightarrow>
           (\<exists>tb r cell. tb \<in> set ?d \<and> tname tb = t \<and> r \<in> set (rows tb)
              \<and> (c, cell) \<in> set (zip (columns tb) (snd r))
              \<and> cell_matches re self search cell)" .
  qed
  from rok have d1: "distinct (map fst tws)" by (simp add: report_ok_def)
  have d2: "\<forall>t cols. map_of tws t = Some cols \<longrightarrow> distinct cols"
    using rok report_ok_map_of by blast
  have frame: "db ?st' = ?d" "disk ?st' = disk st"
    using st2 by (simp_all add: py_print_def)
  from res pairs d1 d2 frame show ?thesis by blast
qed

lemma getTablesWhereStringExists_scenario:
  "wf_db (db (connected songs))
   \<and> (\<exists>tws st'. getTablesWhereStringExists no_re sqlite (plain_rewriter False True ''great'' ''GREAT'')
         (fst (getTables (connected songs))) (Plain ''great'') (snd (getTables (connected songs)))
       = (Inr (tws, 1), st')
      \<and> (\<exists>cols. map_of tws ''Songs'' = Some cols \<and> ''title'' \<in> set cols)
      \<and> \<not> (\<exists>cols. map_of tws ''Songs'' = Some cols \<and> ''id'' \<in> set cols))"
proof -
  have wf: "wf_db (db (connected songs))"
    by (simp add: wf_db_def wf_table_def connected_def songs_def)
  have m1: "\<not> cell_matches no_re (plain_rewriter False True ''great'' ''GREAT'') (Plain ''great'') (Str ''Amazing Grace'')"
    by (simp add: cell_matches_def plain_rewriter_def py_eval)
  have m2: "cell_matches no_re (plain_rewriter False True ''great'' ''GREAT'') (Plain ''great'') (Str ''How Great Thou Art'')"
    by (simp add: cell_matches_def plain_rewriter_def py_eval)
  have m3: "\<not> cell_matches no_re (plain_rewriter False True ''great'' ''GREAT'') (Plain ''great'') (IntCell i)" for i
    by (simp add: cell_matches_def)
  have bare: "list_all (sql_bare sqlite) (map tname (db (connected songs)))"
    by (simp add: connected_def songs_def sqlite_def bare_word_def word_char_def digit_char_def
        sql_keywords_def py_eval)
  from getTablesWhereStringExists_bare_names [OF wf bare, of no_re "plain_rewriter False True ''great'' ''GREAT''" "Plain ''great''"]
  obtain tws total st' where
    r: "getTablesWhereStringExists no_re sqlite (plain_rewriter False True ''great'' ''GREAT'')
         (fst (getTables (connected songs))) (Plain ''great'') (snd (getTables (connected songs)))
       = (Inr (tws, total), st')"
    and p: "\<And>t c. (\<exists>cols. map_of tws t = Some cols \<and> c \<in> set cols) \<longleftrightarrow>
           (\<exists>tb r cell. tb \<in> set (db (connected songs)) \<and> tname tb = t \<and> r \<in> set (rows tb)
              \<and> (c, cell) \<in> set (zip (columns tb) (snd r))
              \<and> cell_matches no_re (plain_rewriter False True ''great'' ''GREAT'') (Plain ''great'') cell)"
    and t: "total = (\<Sum>tb\<leftarrow>db (connected songs). \<Sum>r\<leftarrow>rows tb.
         length (filter (cell_matches no_re (plain_rewriter False True ''great'' ''GREAT'') (Plain ''great'')) (snd r)))"
    by blast
  from t m1 m2 m3 have "total = 1" by (simp add: connected_def songs_def)
  moreover have "\<exists>tb r cell. tb \<in> set (db (connected songs)) \<and> tname tb = ''Songs''
      \<and> r \<in> set (rows tb) \<and> (''title'', cell) \<in> set (zip (columns tb) (snd r))
      \<and> cell_matches no_re (plain_rewriter False True ''great'' ''GREAT'') (Plain ''great'') cell"
    using m2
    by (intro exI [of _ "hd songs"] exI [of _ "(2, [IntCell 2, Str ''How Great Thou Art''])"]
        exI [of _ "Str ''How Great Thou Art''"]) (simp add: connected_def songs_def)
  then have "\<exists>cols. map_of tws ''Songs'' = Some cols \<and> ''title'' \<in> set cols"
    unfolding p .
  moreover from m3 have "\<not> (\<exists>cols. map_of tws ''Songs'' = Some cols \<and> ''id'' \<in> set cols)"
    unfolding p by (auto simp: connected_def songs_def)
  ultimately show ?thesis using wf r by blast
qed

text \<open>A table name that SQLite does not read unquoted as that name stops the scan: the
  statement of line 172 is refused, and no report is built, whatever the cells hold.\<close>

lemma getTablesWhereStringExists_refused_name:
  assumes "wf_db (db st)" and "tb \<in> set (db st)" and "\<not> sql_bare sq (tname tb)"
  shows "\<exists>st'. getTablesWhereStringExists re sq self (fst (getTables st)) search
                  (snd (getTables st)) = (Inl OperationalError, st')
               \<and> db st' = db st \<and> disk st' = disk st \<and> printed st' = printed st"
proof -
  have ts: "list_all (\<lambda>t. \<exists>tb. find_table (db (snd (getTables st))) t = Some tb \<and> wf_table tb)
              (map tname (db st))"
    using assms(1) by (rule listed_tables)
  have ok: "report_ok []" by (simp add: report_ok_def)
  from assms(2,3) have "\<not> list_all (sql_bare sq) (map tname (db st))"
    by (auto simp: list_all_iff)
  from scan_tables_refused [OF ts ok this, of re self search 0]
  obtain st' where "scan_tables re sq self search (map tname (db st)) ([], 0) (snd (getTables st))
      = (Inl OperationalError, st')" "db st' = db (snd (getTables st))"
      "disk st' = disk (snd (getTables st))" "printed st' = printed (snd (getTables st))"
    by blast
  then show ?thesis
    by (simp add: getTablesWhereStringExists_def getTables_def execute_def)
qed

text \<open>
  Claim C5. The scan pass does not build its report for every database. On a database
  whose table is named \<^verbatim>\<open>order\<close>, with a title that matches the pattern, \<^verbatim>\<open>getTables\<close>
  lists the table and the scan executes \<^verbatim>\<open>select * from order\<close> (line 172 pastes the
  name unquoted into the statement), which SQLite refuses: the scan raises an
  \<^verbatim>\<open>OperationalError\<close> where the claim has the pair (\<^verbatim>\<open>order\<close>, \<^verbatim>\<open>title\<close>) reported and
  one cell counted. The \<^verbatim>\<open>update\<close> of line 221 quotes the same names.
\<close>

theorem getTablesWhereStringExists_raises_on_order:
  "getTables (connected orders) = ([''order''], (connected orders)\<lparr>executed := [SelectTables]\<rparr>)
   \<and> cell_matches no_re (plain_rewriter False True ''great'' ''GREAT'') (Plain ''great'')
        (Str ''How Great Thou Art'')
   \<and> getTablesWhereStringExists no_re sqlite (plain_rewriter False True ''great'' ''GREAT'')
        [''order''] (Plain ''great'') ((connected orders)\<lparr>executed := [SelectTables]\<rparr>)
      = (Inl OperationalError,
         (connected orders)\<lparr>executed := [SelectTables, SelectAll ''order'']\<rparr>)"
  by (simp add: run_eval orders_def cell_matches_def py_eval)

subsection \<open>The database under an update\<close>

lemma only_changed_refl [simp]: "only_changed S d d"
  by (simp add: only_changed_def)



lemma unwritten_refl [simp]: "unwritten st st"
  by (simp add: unwritten_def)










subsection \<open>Termination of the plain diff renderer\<close>




lemma lower_Nil [simp]: "lower [] = []"
  by (simp add: lower_def)

subsection \<open>The bound methods\<close>


lemma searchValue_dryRun [simp]:
  "searchValue re (self\<lparr>dryRun := b\<rparr>) search c = searchValue re self search c"
  by (cases search) simp_all

lemma substituteValue_dryRun [simp]:
  "substituteValue re (self\<lparr>dryRun := b\<rparr>) search replace c
     = substituteValue re self search replace c"
  by (cases search; cases c) simp_all

lemma printDifference_dryRun [simp]:
  "printDifference re (self\<lparr>dryRun := b\<rparr>) search replace c newValue
     = printDifference re self search replace c newValue"
  by (cases search; cases c) simp_all




subsection \<open>The rewrite pass, row by row\<close>

lemma db_execute [simp]: "db (execute q st) = db st" "disk (execute q st) = disk st"
  "matched (execute q st) = matched st" "executed (execute q st) = executed st @ [q]"
  by (simp_all add: execute_def)

lemma db_py_print [simp]: "db (py_print out st) = db st" "disk (py_print out st) = disk st"
  "matched (py_print out st) = matched st" "executed (py_print out st) = executed st"
  by (simp_all add: py_print_def)










lemma db_commit [simp]: "db (commit st) = db st" "matched (commit st) = matched st"
  by (simp_all add: commit_def)











subsection \<open>Non-string cells in a flagged column\<close>








subsection \<open>What a dry run matches and prints\<close>

lemma printed_execute [simp]: "printed (execute q st) = printed st"
  by (simp add: execute_def)









subsection \<open>Dry run and real run\<close>




subsection \<open>The constructor\<close>

text \<open>
  Claim C8. In regex mode the constructor compiles the search pattern before it runs the
  replacement: on a malformed pattern it raises, and the state is the one it was given
  (no table has been listed or scanned, no cell read or written, nothing printed).
\<close>

theorem malformed_regex_fails_fast:
  assumes "re_compile re search ignoreCase = None"
  shows "EWDatabaseRewriter re sq search replace True dry ignoreCase st = Some (Some ReError, st)"
  using assms by (simp add: EWDatabaseRewriter_def)

theorem malformed_regex_fails_fast_witness:
  "re_compile no_re ''('' False = None
   \<and> EWDatabaseRewriter no_re sqlite ''('' ''x'' True False False (connected songs)
       = Some (Some ReError, connected songs)"
  using malformed_regex_fails_fast [where re = no_re and search = "''(''" and ignoreCase = False
      and sq = sqlite and replace = "''x''" and dry = False and st = "connected songs"]
  by (simp add: no_re_def)

text \<open>A pattern that compiles is handed to \<^verbatim>\<open>runReplacement\<close>.\<close>

lemma compiled_regex_runs:
  assumes "re_compile re search ignoreCase = Some rx"
  shows "EWDatabaseRewriter re sq search replace True dry ignoreCase st
     = runReplacement re sq \<lparr>dryRun = dry, replacewith = replace, ignorecase = ignoreCase,
         input = Regex rx\<rparr> st"
  using assms by (simp add: EWDatabaseRewriter_def)

subsection \<open>The scenario, end to end\<close>

text \<open>The whole program on the table \<open>Songs\<close>, in plain mode with the case-insensitive
  flag, search "great" and replacement "GREAT": the scan counts one cell, the rewrite
  pass matches it and writes back the value it had, since the substituter compares
  case-sensitively under that flag (see C1).\<close>

lemma scenario_ignorecase:
  "\<exists>st'. EWDatabaseRewriter no_re sqlite ''great'' ''GREAT'' False False True (connected songs)
       = Some (None, st')
     \<and> db st' = songs \<and> disk st' = songs
     \<and> matched st' = [(''Songs'', ''title'', 2)]
     \<and> filter is_write (executed st')
         = [Update ''Songs'' ''title'' ''How Great Thou Art'' 2, Commit]"
  by (simp add: run_eval songs_def py_eval substituteValuePlain_def)

text \<open>The whole program on a database whose only table is named \<^verbatim>\<open>order\<close>: the scan
  raises at its first statement, and nothing is printed or written.\<close>

lemma scenario_order_table:
  "EWDatabaseRewriter no_re sqlite ''great'' ''GREAT'' False False True (connected orders)
     = Some (Some OperationalError,
         (connected orders)\<lparr>executed := [SelectTables, SelectAll ''order'']\<rparr>)"
  by (simp add: run_eval orders_def)

end
